theory Spec2Isabelle
  imports Main "HOL-Library.Sublist"
begin

section \<open>Python values shared by the three scripts\<close>

text \<open>
  A decoded JSON document. Numbers are integers (none of the three scripts computes with a
  fractional number). An object is kept as the association list of the decoded
  \<^verbatim>\<open>dict\<close>, in insertion order, its keys distinct.
\<close>

datatype json =
    JNull
  | JBool bool
  | JInt int
  | JStr string
  | JArr "json list"
  | JObj "(string \<times> json) list"

datatype py_error =
    KeyError string
  | TypeError
  | ValueError
  | JSONDecodeError
  | FileNotFoundError
  | NotADirectoryError

text \<open>\<^verbatim>\<open>v[k]\<close> with a string key: only a \<^verbatim>\<open>dict\<close> can be indexed by a string.\<close>

fun subscript :: "json \<Rightarrow> string \<Rightarrow> py_error + json" where
  "subscript (JObj kvs) k = (case map_of kvs k of None \<Rightarrow> Inl (KeyError k) | Some v \<Rightarrow> Inr v)"
| "subscript _ k = Inl TypeError"

text \<open>
  \<^verbatim>\<open>for x in v\<close>: a list yields its elements, a \<^verbatim>\<open>dict\<close> its keys, a string its
  characters; nothing else is iterable. \<^verbatim>\<open>len(v)\<close> is defined on the same values and is
  the number of items the iteration yields.
\<close>

fun py_iter :: "json \<Rightarrow> py_error + json list" where
  "py_iter (JArr xs) = Inr xs"
| "py_iter (JObj kvs) = Inr (map (\<lambda>kv. JStr (fst kv)) kvs)"
| "py_iter (JStr s) = Inr (map (\<lambda>c. JStr [c]) s)"
| "py_iter _ = Inl TypeError"

text \<open>\<^verbatim>\<open>v != 0\<close>: Python compares \<^verbatim>\<open>False\<close> equal to \<^verbatim>\<open>0\<close>.\<close>

fun ne_zero :: "json \<Rightarrow> bool" where
  "ne_zero (JInt n) = (n \<noteq> 0)"
| "ne_zero (JBool b) = b"
| "ne_zero _ = True"

section \<open>Forgotten Room Deletion Tool (delete\_forgotten\_rooms.py)\<close>

text \<open>
  What \<^verbatim>\<open>requests\<close> hands back: \<^verbatim>\<open>res.ok\<close>, and \<^verbatim>\<open>res.json()\<close>, which raises when the body
  is not JSON (\<open>None\<close>).
\<close>

datatype response = Response (res_ok: bool) (res_json: "json option")

text \<open>What the script prints, one constructor per \<^verbatim>\<open>print\<close>/\<^verbatim>\<open>pprint\<close> call of the source.\<close>

datatype message =
    ListFailed
  | Retrieved nat
  | Skipping json
  | Deleting json
  | DeleteFailed json
  | StatusFailed json json
  | RoomFailed json
  | Details json
  | Deleted int nat

text \<open>
  The observable actions of a run, in order. \<open>GetRooms n\<close> is the listing request with
  \<^verbatim>\<open>limit=n\<close>, \<open>DeleteRoom r\<close> the \<^verbatim>\<open>DELETE .../v2/rooms/{r}\<close> request, \<open>GetStatus d\<close> the
  \<^verbatim>\<open>GET .../delete_status/{d}\<close> request, \<open>Sleep\<close> is \<^verbatim>\<open>time.sleep(1)\<close>.
\<close>

datatype event =
    GetRooms int
  | DeleteRoom json
  | GetStatus json
  | Sleep
  | Print message

text \<open>
  How a run (or a part of it) ends early. The homeserver is a script: the list of the
  responses it gives, consumed one per request. \<open>NoResponse\<close> is a request sent when the
  script is used up: the run is still waiting there.
\<close>

datatype stop =
    Finished
  | Exit int
  | Raise py_error
  | NoResponse

text \<open>
  The status polling loop (lines 92 to 118). It returns the final \<^verbatim>\<open>status\<close> and
  \<^verbatim>\<open>last_res_json\<close>, the responses left, and the events it produced. The loop variable
  \<^verbatim>\<open>status\<close> starts as \<^verbatim>\<open>"purging"\<close>, so the body runs at least once. After the
  diagnostic of a failed query there is no \<^verbatim>\<open>continue\<close>: the two assignments after the
  \<^verbatim>\<open>if\<close> run on every response.
\<close>

fun poll_status ::
  "json \<Rightarrow> json \<Rightarrow> response list \<Rightarrow> (stop + json \<times> json) \<times> response list \<times> event list" where
  "poll_status room_id del_id [] = (Inl NoResponse, [], [Sleep, GetStatus del_id])"
| "poll_status room_id del_id (res # rs) =
     (case res_json res of
        None \<Rightarrow>
          (Inl (Raise JSONDecodeError), rs,
           [Sleep, GetStatus del_id] @
           (if res_ok res then [] else [Print (StatusFailed room_id del_id)]))
      | Some j \<Rightarrow>
          (let ev = [Sleep, GetStatus del_id] @
                    (if res_ok res then []
                     else [Print (StatusFailed room_id del_id), Print (Details j)])
           in case subscript j ''status'' of
                Inl e \<Rightarrow> (Inl (Raise e), rs, ev)
              | Inr status \<Rightarrow>
                  if status = JStr ''purging'' then
                    (case poll_status room_id del_id rs of
                       (r, rs', ev') \<Rightarrow> (r, rs', ev @ ev'))
                  else (Inr (status, j), rs, ev)))"

text \<open>
  The body of the \<^verbatim>\<open>for room in rooms\<close> loop (lines 63 to 124), on the current value of
  \<^verbatim>\<open>deleted_rooms\<close>; it returns the new value.
\<close>

definition process_room ::
  "json \<Rightarrow> int \<Rightarrow> response list \<Rightarrow> (stop + int) \<times> response list \<times> event list" where
  "process_room room deleted rs =
     (case subscript room ''room_id'' of
        Inl e \<Rightarrow> (Inl (Raise e), rs, [])
      | Inr room_id \<Rightarrow>
         (case subscript room ''joined_local_members'' of
            Inl e \<Rightarrow> (Inl (Raise e), rs, [])
          | Inr members \<Rightarrow>
             if ne_zero members then (Inr deleted, rs, [Print (Skipping room_id)])
             else
              (let ev = [Print (Deleting room_id), DeleteRoom room_id];
                   deleted' = deleted + 1
               in case rs of
                    [] \<Rightarrow> (Inl NoResponse, [], ev)
                  | res # rs1 \<Rightarrow>
                     if \<not> res_ok res then
                       (case res_json res of
                          None \<Rightarrow>
                            (Inl (Raise JSONDecodeError), rs1, ev @ [Print (DeleteFailed room_id)])
                        | Some j \<Rightarrow>
                            (Inr deleted', rs1,
                             ev @ [Print (DeleteFailed room_id), Print (Details j)]))
                     else
                       (case res_json res of
                          None \<Rightarrow> (Inl (Raise JSONDecodeError), rs1, ev)
                        | Some j \<Rightarrow>
                           (case subscript j ''delete_id'' of
                              Inl e \<Rightarrow> (Inl (Raise e), rs1, ev)
                            | Inr del_id \<Rightarrow>
                               (case poll_status room_id del_id rs1 of
                                  (Inl s, rs2, ev2) \<Rightarrow> (Inl s, rs2, ev @ ev2)
                                | (Inr (status, last_res_json), rs2, ev2) \<Rightarrow>
                                    (Inr deleted', rs2,
                                     ev @ ev2 @
                                     (if status = JStr ''failed''
                                      then [Print (RoomFailed room_id), Print (Details last_res_json)]
                                      else []))))))))"

text \<open>The \<^verbatim>\<open>for room in rooms\<close> loop.\<close>

fun process_rooms ::
  "json list \<Rightarrow> int \<Rightarrow> response list \<Rightarrow> (stop + int) \<times> response list \<times> event list" where
  "process_rooms [] deleted rs = (Inr deleted, rs, [])"
| "process_rooms (room # rooms) deleted rs =
     (case process_room room deleted rs of
        (Inl s, rs1, ev) \<Rightarrow> (Inl s, rs1, ev)
      | (Inr deleted', rs1, ev) \<Rightarrow>
          (case process_rooms rooms deleted' rs1 of
             (r, rs2, ev') \<Rightarrow> (r, rs2, ev @ ev')))"

lemma poll_status_length:
  "poll_status room_id del_id rs = (r, rs', ev) \<Longrightarrow> length rs' \<le> length rs"
proof (induction rs arbitrary: r rs' ev)
  case Nil
  then show ?case by simp
next
  case (Cons res rs)
  then show ?case
    by (fastforce simp: Let_def split: option.splits sum.splits if_splits prod.splits)
qed

lemma process_room_length:
  "process_room room deleted rs = (r, rs', ev) \<Longrightarrow> length rs' \<le> length rs"
  unfolding process_room_def
  by (auto simp: Let_def split: option.splits sum.splits if_splits prod.splits list.splits
           dest: poll_status_length)

lemma process_rooms_length:
  "process_rooms rooms deleted rs = (r, rs', ev) \<Longrightarrow> length rs' \<le> length rs"
proof (induction rooms arbitrary: deleted rs r rs' ev)
  case Nil
  then show ?case by simp
next
  case (Cons room rooms)
  show ?case
  proof (cases "process_room room deleted rs")
    case (fields a rs1 ev1)
    note pr = this
    have le1: "length rs1 \<le> length rs" using process_room_length [OF pr] .
    show ?thesis
    proof (cases a)
      case (Inl s)
      with Cons.prems pr le1 show ?thesis by simp
    next
      case (Inr d)
      obtain r2 rs2 ev2 where rec: "process_rooms rooms d rs1 = (r2, rs2, ev2)"
        by (cases "process_rooms rooms d rs1") auto
      from Cons.IH [OF rec] have "length rs2 \<le> length rs1" .
      moreover from Cons.prems pr Inr rec have "rs' = rs2" by simp
      ultimately show ?thesis using le1 by simp
    qed
  qed
qed

text \<open>
  The outer loop (lines 43 to 126): \<^verbatim>\<open>while deleted_rooms == BATCH_SIZE\<close>, entered with
  \<^verbatim>\<open>deleted_rooms = BATCH_SIZE\<close>. Every round sends one listing request, so the script
  of responses gets shorter and the recursion is well founded.
\<close>

function tool_loop :: "int \<Rightarrow> int \<Rightarrow> response list \<Rightarrow> stop \<times> response list \<times> event list" where
  "tool_loop batch_size deleted_rooms rs =
     (if deleted_rooms \<noteq> batch_size then (Finished, rs, [])
      else
       (case rs of
          [] \<Rightarrow> (NoResponse, [], [GetRooms batch_size])
        | res # rs1 \<Rightarrow>
           if \<not> res_ok res then
             (case res_json res of
                None \<Rightarrow> (Raise JSONDecodeError, rs1, [GetRooms batch_size, Print ListFailed])
              | Some j \<Rightarrow>
                  (Exit 1, rs1, [GetRooms batch_size, Print ListFailed, Print (Details j)]))
           else
             (case res_json res of
                None \<Rightarrow> (Raise JSONDecodeError, rs1, [GetRooms batch_size])
              | Some j \<Rightarrow>
                 (case subscript j ''rooms'' of
                    Inl e \<Rightarrow> (Raise e, rs1, [GetRooms batch_size])
                  | Inr rooms \<Rightarrow>
                     (case py_iter rooms of
                        Inl e \<Rightarrow> (Raise e, rs1, [GetRooms batch_size])
                      | Inr items \<Rightarrow>
                         (case process_rooms items 0 rs1 of
                            (Inl s, rs2, ev) \<Rightarrow>
                              (s, rs2,
                               [GetRooms batch_size, Print (Retrieved (length items))] @ ev)
                          | (Inr deleted', rs2, ev) \<Rightarrow>
                              (case tool_loop batch_size deleted' rs2 of
                                 (r, rs3, ev') \<Rightarrow>
                                   (r, rs3,
                                    [GetRooms batch_size, Print (Retrieved (length items))] @ ev @
                                    [Print (Deleted deleted' (length items))] @ ev'))))))))"
  by pat_completeness auto
termination
proof (relation "measure (\<lambda>(batch_size, deleted_rooms, rs). length rs)")
  show "wf (measure (\<lambda>(batch_size, deleted_rooms, rs). length rs))" by simp
next
  fix batch_size deleted_rooms :: int
  fix rs rs1 rs2 :: "response list" and res j rooms items x deleted' y ev
  assume "rs = res # rs1"
    and "(x, y) = process_rooms items 0 rs1"
    and "(rs2, ev) = y"
  then have "process_rooms items 0 rs1 = (x, rs2, ev)" by simp
  from process_rooms_length [OF this] \<open>rs = res # rs1\<close>
  show "((batch_size, deleted', rs2), (batch_size, deleted_rooms, rs)) \<in>
          measure (\<lambda>(batch_size, deleted_rooms, rs). length rs)"
    by simp
qed

text \<open>The script as a whole: \<^verbatim>\<open>deleted_rooms = BATCH_SIZE\<close>, then the loop.\<close>

definition delete_forgotten_rooms ::
  "int \<Rightarrow> response list \<Rightarrow> stop \<times> response list \<times> event list" where
  "delete_forgotten_rooms batch_size rs = tool_loop batch_size batch_size rs"

subsection \<open>Observations on a run\<close>

text \<open>
  The deletion requests among the events, in order; whether a room of a listing page has
  no joined local member (what line 66 tests); the identifiers of those rooms of a page;
  whether an event is the tally printed after a page, or a listing request.
\<close>

fun deletion_requests :: "event list \<Rightarrow> json list" where
  "deletion_requests [] = []"
| "deletion_requests (DeleteRoom r # ev) = r # deletion_requests ev"
| "deletion_requests (_ # ev) = deletion_requests ev"

definition no_local_members :: "json \<Rightarrow> bool" where
  "no_local_members room =
     (case subscript room ''joined_local_members'' of Inl e \<Rightarrow> False | Inr members \<Rightarrow> \<not> ne_zero members)"

fun forgotten_room_ids :: "json list \<Rightarrow> json list" where
  "forgotten_room_ids [] = []"
| "forgotten_room_ids (room # rooms) =
     (case subscript room ''room_id'' of
        Inl e \<Rightarrow> forgotten_room_ids rooms
      | Inr room_id \<Rightarrow>
          if no_local_members room then room_id # forgotten_room_ids rooms
          else forgotten_room_ids rooms)"

fun is_tally :: "event \<Rightarrow> bool" where
  "is_tally (Print (Deleted d n)) = True"
| "is_tally _ = False"

fun is_listing :: "event \<Rightarrow> bool" where
  "is_listing (GetRooms n) = True"
| "is_listing _ = False"

subsection \<open>Sample rooms and responses\<close>

definition room_a :: json where
  "room_a = JObj [(''room_id'', JStr ''!a:hs''), (''joined_local_members'', JInt 0)]"

definition room_b :: json where
  "room_b = JObj [(''room_id'', JStr ''!b:hs''), (''joined_local_members'', JInt 0)]"

definition room_c :: json where
  "room_c = JObj [(''room_id'', JStr ''!c:hs''), (''joined_local_members'', JInt 3)]"

definition delete_refused :: response where
  "delete_refused = Response False (Some (JObj [(''errcode'', JStr ''M_UNKNOWN'')]))"

definition delete_accepted :: response where
  "delete_accepted = Response True (Some (JObj [(''delete_id'', JStr ''d2'')]))"

definition status_complete :: response where
  "status_complete = Response True (Some (JObj [(''status'', JStr ''complete'')]))"

definition page_ab :: response where
  "page_ab = Response True (Some (JObj [(''rooms'', JArr [room_a, room_b])]))"

definition page_cb :: response where
  "page_cb = Response True (Some (JObj [(''rooms'', JArr [room_b, room_c])]))"

section \<open>Photo Sorter (sort\_photos.py)\<close>

text \<open>
  \<^verbatim>\<open>FILE_NAME_REGEX = "^[IMG|PANO]+_([0-9]{8})_([0-9]{6})"\<close>, applied with
  \<^verbatim>\<open>re.match\<close>. The bracket is a character class: the letters of IMG and PANO and the
  bar. The underscore is not in the class, so the greedy run can only end where the run of
  class characters ends. The result is group 1, the eight digits, or \<open>None\<close>.
\<close>

definition in_class :: "char \<Rightarrow> bool" where
  "in_class c = (c \<in> set ''IMG|PANO'')"

definition is_digit :: "char \<Rightarrow> bool" where
  "is_digit c = (c \<in> set ''0123456789'')"

definition file_name_match :: "string \<Rightarrow> string option" where
  "file_name_match name =
     (let rest = dropWhile in_class name in
      if takeWhile in_class name = [] then None
      else
       (case rest of
          [] \<Rightarrow> None
        | c # rest1 \<Rightarrow>
            if c = CHR ''_'' \<and> length (take 8 rest1) = 8 \<and> list_all is_digit (take 8 rest1)
            then
             (case drop 8 rest1 of
                [] \<Rightarrow> None
              | c2 # rest2 \<Rightarrow>
                  if c2 = CHR ''_'' \<and> length (take 6 rest2) = 6 \<and> list_all is_digit (take 6 rest2)
                  then Some (take 8 rest1)
                  else None)
            else None))"

text \<open>
  \<^verbatim>\<open>datetime.strptime(s, "%Y%m%d")\<close> on a string of eight ASCII digits, which is all
  group 1 can be. The format's pattern takes four digits for the year, then
  \<^verbatim>\<open>1[0-2]|0[1-9]|[1-9]\<close> for the month and \<^verbatim>\<open>3[01]|[12]\\d|0[1-9]|[1-9]| [1-9]\<close> for the
  day, and the whole string must be used up: that happens exactly when the month digits are
  01 to 12 and the day digits 01 to 31. The date must then exist (year at least 1, day
  within the month); anything else is a \<^verbatim>\<open>ValueError\<close>.
\<close>

definition nat_of_digits :: "string \<Rightarrow> nat" where
  "nat_of_digits s = foldl (\<lambda>n c. 10 * n + (of_char c - 48)) 0 s"

definition is_leap :: "nat \<Rightarrow> bool" where
  "is_leap y = (y mod 4 = 0 \<and> (y mod 100 \<noteq> 0 \<or> y mod 400 = 0))"

definition days_in_month :: "nat \<Rightarrow> nat \<Rightarrow> nat" where
  "days_in_month y m =
     (if m = 2 then (if is_leap y then 29 else 28)
      else if m = 4 \<or> m = 6 \<or> m = 9 \<or> m = 11 then 30 else 31)"

record date =
  year :: nat
  month :: nat
  day :: nat

definition strptime_Ymd :: "string \<Rightarrow> py_error + date" where
  "strptime_Ymd s =
     (let y = nat_of_digits (take 4 s);
          m = nat_of_digits (take 2 (drop 4 s));
          d = nat_of_digits (drop 6 s)
      in if 1 \<le> y \<and> 1 \<le> m \<and> m \<le> 12 \<and> 1 \<le> d \<and> d \<le> days_in_month y m
         then Inr \<lparr>year = y, month = m, day = d\<rparr>
         else Inl ValueError)"

text \<open>
  \<^verbatim>\<open>date.strftime("%Y/%m")\<close>: the year on four digits, the month on two. (The C library
  of some platforms prints a year below 1000 without the leading zeros; no property below
  depends on the text of the year.)
\<close>

fun decimal :: "nat \<Rightarrow> nat \<Rightarrow> string" where
  "decimal 0 n = []"
| "decimal (Suc k) n = decimal k (n div 10) @ [char_of (48 + n mod 10)]"

definition strftime_Ym :: "date \<Rightarrow> string" where
  "strftime_Ym dt = decimal 4 (year dt) @ ''/'' @ decimal 2 (month dt)"

text \<open>
  \<^verbatim>\<open>os.path.join(a, b)\<close> (posixpath). \<^verbatim>\<open>args.path\<close> is \<^verbatim>\<open>None\<close> when the option is not
  given (the parser declares no default and does not require it), and joining \<^verbatim>\<open>None\<close>
  raises \<^verbatim>\<open>TypeError\<close>.
\<close>

definition path_join :: "string option \<Rightarrow> string \<Rightarrow> py_error + string" where
  "path_join a b =
     (case a of
        None \<Rightarrow> Inl TypeError
      | Some p \<Rightarrow>
          Inr (if take 1 b = ''/'' then b
               else if p = [] \<or> last p = CHR ''/'' then p @ b
               else p @ ''/'' @ b))"

text \<open>
  \<^verbatim>\<open>files_to_move\<close>: a \<^verbatim>\<open>dict\<close> from directory path to the list of file names, kept in
  insertion order. Lines 57 to 59: a new key is added at the end with the file as its only
  member, an existing key gets the file appended.
\<close>

type_synonym buckets = "(string \<times> string list) list"

fun record_file :: "string \<Rightarrow> string \<Rightarrow> buckets \<Rightarrow> buckets" where
  "record_file dir_path file [] = [(dir_path, [file])]"
| "record_file dir_path file ((k, fs) # ftm) =
     (if k = dir_path then (k, fs @ [file]) # ftm
      else (k, fs) # record_file dir_path file ftm)"

text \<open>
  The scan loop (lines 43 to 62), on the current \<^verbatim>\<open>n_files\<close> and \<^verbatim>\<open>files_to_move\<close>.
  The date is parsed before the destination path is built.
\<close>

fun scan :: "string option \<Rightarrow> string list \<Rightarrow> int \<Rightarrow> buckets \<Rightarrow> py_error + int \<times> buckets" where
  "scan path [] n_files ftm = Inr (n_files, ftm)"
| "scan path (file # files) n_files ftm =
     (case file_name_match file of
        None \<Rightarrow> scan path files (n_files - 1) ftm
      | Some g \<Rightarrow>
         (case strptime_Ymd g of
            Inl e \<Rightarrow> Inl e
          | Inr dt \<Rightarrow>
             (case path_join path (strftime_Ym dt) of
                Inl e \<Rightarrow> Inl e
              | Inr dir_path \<Rightarrow> scan path files n_files (record_file dir_path file ftm))))"

text \<open>
  What a run does, in order: the directory listing, the line \<^verbatim>\<open>Moving n files\<close>, and for
  the move loop the directory creations, the moves and the ticks of the progress bar.
\<close>

datatype action =
    ListDir "string option"
  | Moving int
  | Mkdir string
  | Move string string
  | Tick

text \<open>
  The file system answers the calls of the move phase: \<open>mkdir\<close> is
  \<^verbatim>\<open>Path(dir_path).mkdir(parents=True, exist_ok=True)\<close> and \<open>move\<close> is \<^verbatim>\<open>shutil.move\<close>. Each
  is given the actions of the run so far (what has been done to the file system before the
  call) and its arguments, and says whether the call raises, and what. An action that
  raised is the last action of the run.
\<close>

type_synonym mkdir_call = "action list \<Rightarrow> string \<Rightarrow> py_error option"

type_synonym move_call = "action list \<Rightarrow> string \<Rightarrow> string \<Rightarrow> py_error option"

text \<open>
  The inner loop of the move phase (lines 72 to 81) for one directory; \<open>before\<close> is the
  list of the actions of the run so far.
\<close>

fun move_files ::
  "move_call \<Rightarrow> string option \<Rightarrow> string \<Rightarrow> action list \<Rightarrow> string list \<Rightarrow>
   py_error option \<times> action list" where
  "move_files move path dir_path before [] = (None, [])"
| "move_files move path dir_path before (file # files) =
     (case path_join path file of
        Inl e \<Rightarrow> (Some e, [])
      | Inr src_path \<Rightarrow>
         (case path_join (Some dir_path) file of
            Inl e \<Rightarrow> (Some e, [])
          | Inr dst_path \<Rightarrow>
             (case move before src_path dst_path of
                Some e \<Rightarrow> (Some e, [Move src_path dst_path])
              | None \<Rightarrow>
                 (case move_files move path dir_path
                         (before @ [Move src_path dst_path, Tick]) files of
                    (r, acts) \<Rightarrow> (r, Move src_path dst_path # Tick # acts)))))"

text \<open>The outer loop of the move phase (lines 68 to 81).\<close>

fun move_phase ::
  "mkdir_call \<Rightarrow> move_call \<Rightarrow> string option \<Rightarrow> action list \<Rightarrow> buckets \<Rightarrow>
   py_error option \<times> action list" where
  "move_phase mkdir move path before [] = (None, [])"
| "move_phase mkdir move path before ((dir_path, files) # ftm) =
     (case mkdir before dir_path of
        Some e \<Rightarrow> (Some e, [Mkdir dir_path])
      | None \<Rightarrow>
         (case move_files move path dir_path (before @ [Mkdir dir_path]) files of
            (Some e, acts) \<Rightarrow> (Some e, Mkdir dir_path # acts)
          | (None, acts) \<Rightarrow>
             (case move_phase mkdir move path (before @ Mkdir dir_path # acts) ftm of
                (r, acts') \<Rightarrow> (r, Mkdir dir_path # acts @ acts'))))"

text \<open>
  The script. The file system is a parameter: \<open>listdir\<close> is \<^verbatim>\<open>os.listdir\<close>, from the
  argument it is given (\<^verbatim>\<open>None\<close> included) to the names it returns or the error it raises;
  \<open>mkdir\<close> and \<open>move\<close> are as above. The result is the error that ended the run, if any,
  and the actions up to there.
\<close>

definition sort_photos ::
  "(string option \<Rightarrow> py_error + string list) \<Rightarrow> mkdir_call \<Rightarrow> move_call \<Rightarrow> string option \<Rightarrow>
   py_error option \<times> action list" where
  "sort_photos listdir mkdir move path =
     (case listdir path of
        Inl e \<Rightarrow> (Some e, [ListDir path])
      | Inr files \<Rightarrow>
         (case scan path files (int (length files)) [] of
            Inl e \<Rightarrow> (Some e, [ListDir path])
          | Inr (n_files, ftm) \<Rightarrow>
             (case move_phase mkdir move path [ListDir path, Moving n_files] ftm of
                (r, acts) \<Rightarrow> (r, ListDir path # Moving n_files # acts))))"

text \<open>
  Observations on the scan: the number of names recorded in the buckets, the names that do
  not match the pattern, group 1 of the first name that matches, and whether every name
  that matches carries a date that parses.
\<close>


definition bucket_total :: "buckets \<Rightarrow> nat" where
  "bucket_total ftm = sum_list (map (\<lambda>kv. length (snd kv)) ftm)"

definition unmatched :: "string list \<Rightarrow> string list" where
  "unmatched files = filter (\<lambda>file. file_name_match file = None) files"

fun first_group :: "string list \<Rightarrow> string option" where
  "first_group [] = None"
| "first_group (file # files) =
     (case file_name_match file of None \<Rightarrow> first_group files | Some g \<Rightarrow> Some g)"

definition dates_valid :: "string list \<Rightarrow> bool" where
  "dates_valid files =
     list_all (\<lambda>file. case file_name_match file of
                        None \<Rightarrow> True
                      | Some g \<Rightarrow> (case strptime_Ymd g of Inl e \<Rightarrow> False | Inr dt \<Rightarrow> True)) files"

text \<open>
  A sample file system: what \<^verbatim>\<open>os.listdir\<close> returns for four arguments; every move
  succeeds, and so does every directory creation but the one under \<^verbatim>\<open>/blocked\<close>, where
  \<^verbatim>\<open>2023\<close> is a file.
\<close>

definition photos :: "string list" where
  "photos = [''IMG_20230615_101500.jpg'', ''PANO_20230101_080000.jpg'', ''random.txt'',
             ''VID_20230615_101500.mp4'', ''IMG_20230601_000000.png'']"

definition bad_photos :: "string list" where
  "bad_photos = [''IMG_20230615_101500.jpg'', ''IMG_20230230_101500.jpg'']"

definition sample_listdir :: "string option \<Rightarrow> py_error + string list" where
  "sample_listdir a =
     (case a of
        None \<Rightarrow> Inr [''notes.txt'', ''todo.md'']
      | Some d \<Rightarrow>
          if d = ''/photos'' then Inr photos
          else if d = ''/bad'' then Inr bad_photos
          else if d = ''/blocked'' then Inr [''IMG_20230615_101500.jpg'', ''2023'']
          else Inl FileNotFoundError)"

definition sample_mkdir :: mkdir_call where
  "sample_mkdir before d = (if d = ''/blocked/2023/06'' then Some NotADirectoryError else None)"

definition sample_move :: move_call where
  "sample_move before src_path dst_path = None"

section \<open>Scoped Display Name Changer (set\_display\_name\_in\_matrix\_space.py)\<close>

text \<open>
  Where a request goes: a full URL, or a path after the base URL (whatever value the base
  URL holds). A call is a method, a target and the JSON body sent with it, if any.
\<close>

datatype target = Absolute string | OnBase json string

datatype call = Call string target "json option"

text \<open>
  The three ways a run of this script fails: the \<^verbatim>\<open>HttpError\<close> of the source (status code,
  body text, URL), a \<^verbatim>\<open>RuntimeError\<close>, or another Python exception.
\<close>

datatype failure = HttpError int string target | RuntimeError string | Py py_error

text \<open>
  What the homeserver answers: status code, body text, and the body decoded as JSON
  (\<open>None\<close> when it is not JSON). The decoded body has the shape the endpoint documents;
  fields the protocol leaves optional are optional here.
\<close>

datatype 'a reply = Reply int string "'a option"

text \<open>A field of a JSON object that may be missing, and may be \<^verbatim>\<open>null\<close> when present.\<close>

datatype field = Absent | Present "string option"

text \<open>
  The homeserver, one function per endpoint of section 6.3: the well-known document of a
  domain (any JSON), the joined rooms, the room of an alias, the rooms of a space hierarchy
  (identifier and optional name), the joined members of a room (user and display name
  field, in the order of the response), the profile (the avatar URL if there is one), and
  the answer to the membership update of a room.
\<close>

record server =
  srv_well_known :: "string \<Rightarrow> json reply"
  srv_joined_rooms :: "string list reply"
  srv_directory :: "string \<Rightarrow> string reply"
  srv_hierarchy :: "string \<Rightarrow> (string \<times> string option) list reply"
  srv_joined_members :: "string \<Rightarrow> (string \<times> field) list reply"
  srv_profile :: "string \<Rightarrow> string option reply"
  srv_put_member :: "string \<Rightarrow> unit reply"

text \<open>
  The \<^verbatim>\<open>Client\<close> object. \<open>base_url\<close> is \<open>JNull\<close> for \<^verbatim>\<open>None\<close>; once set it is whatever
  the well-known document holds. \<open>rooms_in_space\<close> is a \<^verbatim>\<open>dict\<close> in insertion order.
\<close>

record client =
  user_id :: string
  tok :: string
  base_url :: json
  joined_rooms :: "string list"
  rooms_in_space :: "(string \<times> string) list"

text \<open>\<^verbatim>\<open>Client.__init__\<close>.\<close>

definition new_client :: "string \<Rightarrow> string \<Rightarrow> client" where
  "new_client uid t =
     \<lparr>user_id = uid, tok = t, base_url = JNull, joined_rooms = [], rooms_in_space = []\<rparr>"

text \<open>\<^verbatim>\<open>d[k] = v\<close> on a \<^verbatim>\<open>dict\<close> in insertion order.\<close>

fun dict_set :: "string \<Rightarrow> 'v \<Rightarrow> (string \<times> 'v) list \<Rightarrow> (string \<times> 'v) list" where
  "dict_set k v [] = [(k, v)]"
| "dict_set k v ((k', v') # d) = (if k' = k then (k, v) # d else (k', v') # dict_set k v d)"

text \<open>
  \<^verbatim>\<open>_req\<close> (lines 162 to 190), given the answer the homeserver has for the request. Nothing
  is sent when the path is relative and no base URL is set.
\<close>

definition req ::
  "client \<Rightarrow> string \<Rightarrow> string \<Rightarrow> json option \<Rightarrow> 'a reply \<Rightarrow> (failure + 'a) \<times> call list" where
  "req c method path kwargs r =
     (if take 8 path \<noteq> ''https://'' \<and> base_url c = JNull
      then (Inl (RuntimeError ''Tried to make API requests before successful init''), [])
      else
       (let url = (if take 8 path = ''https://'' then Absolute path
                   else OnBase (base_url c) path)
        in case r of
             Reply code content body \<Rightarrow>
               if code \<noteq> 200 then (Inl (HttpError code content url), [Call method url kwargs])
               else
                (case body of
                   None \<Rightarrow> (Inl (Py JSONDecodeError), [Call method url kwargs])
                 | Some v \<Rightarrow> (Inr v, [Call method url kwargs]))))"

text \<open>\<^verbatim>\<open>s.split(sep)\<close> for a separator of one character.\<close>

fun split_on :: "char \<Rightarrow> string \<Rightarrow> string list" where
  "split_on sep [] = [[]]"
| "split_on sep (c # cs) =
     (if c = sep then [] # split_on sep cs
      else (case split_on sep cs of
              [] \<Rightarrow> [[c]]
            | w # ws \<Rightarrow> (c # w) # ws))"

text \<open>
  The well-known resolution of \<^verbatim>\<open>Client.init\<close> (lines 37 to 41): the \<^verbatim>\<open>try\<close> block holds
  the request and the two lookups, and only \<^verbatim>\<open>HttpError\<close> is caught.
\<close>

definition resolve_base_url :: "server \<Rightarrow> client \<Rightarrow> string \<Rightarrow> (failure + json) \<times> call list" where
  "resolve_base_url srv c domain =
     (case req c ''GET'' (''https://'' @ domain @ ''/.well-known/matrix/client'') None
             (srv_well_known srv domain) of
        (Inl (HttpError code content url), cs) \<Rightarrow> (Inr (JStr (''https://'' @ domain)), cs)
      | (Inl f, cs) \<Rightarrow> (Inl f, cs)
      | (Inr resp, cs) \<Rightarrow>
         (case subscript resp ''m.homeserver'' of
            Inl e \<Rightarrow> (Inl (Py e), cs)
          | Inr hs \<Rightarrow>
             (case subscript hs ''base_url'' of
                Inl e \<Rightarrow> (Inl (Py e), cs)
              | Inr b \<Rightarrow> (Inr b, cs))))"

text \<open>\<^verbatim>\<open>Client.init\<close> (lines 28 to 44).\<close>

definition client_init :: "server \<Rightarrow> client \<Rightarrow> (failure + client) \<times> call list" where
  "client_init srv c =
     (let split = split_on CHR '':'' (user_id c) in
      if length split \<noteq> 2
      then (Inl (RuntimeError ''Invalid user ID, please use the full identifier''), [])
      else
       (case resolve_base_url srv c (split ! 1) of
          (Inl f, cs) \<Rightarrow> (Inl f, cs)
        | (Inr b, cs) \<Rightarrow>
           (case req (c\<lparr>base_url := b\<rparr>) ''GET'' ''/_matrix/client/v3/joined_rooms'' None
                   (srv_joined_rooms srv) of
              (Inl f, cs') \<Rightarrow> (Inl f, cs @ cs')
            | (Inr rooms, cs') \<Rightarrow>
                (Inr (c\<lparr>base_url := b, joined_rooms := rooms\<rparr>), cs @ cs'))))"

text \<open>
  \<^verbatim>\<open>urllib.parse.quote\<close> with its default \<^verbatim>\<open>safe='/'\<close>: letters, digits and \<^verbatim>\<open>_.-~/\<close> are
  kept, every other byte becomes \<^verbatim>\<open>%XX\<close>.
\<close>

definition quote_char :: "char \<Rightarrow> string" where
  "quote_char c =
     (let n = (of_char c :: nat) in
      if (65 \<le> n \<and> n \<le> 90) \<or> (97 \<le> n \<and> n \<le> 122) \<or> (48 \<le> n \<and> n \<le> 57) \<or> c \<in> set ''_.-~/''
      then [c]
      else [CHR ''%'', ''0123456789ABCDEF'' ! (n div 16), ''0123456789ABCDEF'' ! (n mod 16)])"

definition quote :: "string \<Rightarrow> string" where
  "quote s = concat (map quote_char s)"

text \<open>
  The comprehension of lines 63 to 67: for each room of the hierarchy that is among the
  joined rooms, its identifier is mapped to its name; a room without a name raises there.
\<close>

fun hierarchy_rooms ::
  "string list \<Rightarrow> (string \<times> string option) list \<Rightarrow> (string \<times> string) list \<Rightarrow>
   py_error + (string \<times> string) list" where
  "hierarchy_rooms joined [] d = Inr d"
| "hierarchy_rooms joined ((room_id, name) # rest) d =
     (if room_id \<in> set joined then
        (case name of
           None \<Rightarrow> Inl (KeyError ''name'')
         | Some n \<Rightarrow> hierarchy_rooms joined rest (dict_set room_id n d))
      else hierarchy_rooms joined rest d)"

text \<open>
  The roster of lines 108 to 111: \<^verbatim>\<open>value.get("display_name", key)\<close> for every joined
  member of the space.
\<close>

fun roster :: "(string \<times> field) list \<Rightarrow> (string \<times> string option) list \<Rightarrow> (string \<times> string option) list" where
  "roster [] d = d"
| "roster ((key, value) # rest) d =
     roster rest (dict_set key (case value of Absent \<Rightarrow> Some key | Present v \<Rightarrow> v) d)"

text \<open>\<^verbatim>\<open>_is_dm_in_space\<close> (lines 77 to 91); \<open>me\<close> is \<^verbatim>\<open>self.user_id\<close>.\<close>

definition is_dm_in_space ::
  "string \<Rightarrow> (string \<times> string option) list \<Rightarrow> (string \<times> field) list \<Rightarrow> bool" where
  "is_dm_in_space me members joined_users =
     (if length joined_users \<noteq> 2 then False
      else list_all (\<lambda>user. \<not> (\<not> user = me \<and> user \<notin> set (map fst members)))
             (map fst joined_users))"

text \<open>
  \<^verbatim>\<open>_correspondant_display_name\<close> (lines 93 to 103): \<^verbatim>\<open>value["display_name"]\<close> of the first
  member that is not the acting user; \<^verbatim>\<open>None\<close> when the loop ends without one.
\<close>

fun correspondant_display_name :: "string \<Rightarrow> (string \<times> field) list \<Rightarrow> py_error + string option" where
  "correspondant_display_name me [] = Inr None"
| "correspondant_display_name me ((key, value) # rest) =
     (if key \<noteq> me then
        (case value of
           Absent \<Rightarrow> Inl (KeyError ''display_name'')
         | Present v \<Rightarrow> Inr v)
      else correspondant_display_name me rest)"

text \<open>How an f-string prints the value: \<^verbatim>\<open>None\<close> as the word \<^verbatim>\<open>None\<close>.\<close>

definition format_value :: "string option \<Rightarrow> string" where
  "format_value v = (case v of None \<Rightarrow> ''None'' | Some s \<Rightarrow> s)"

text \<open>
  The body of the loop over the joined rooms (lines 116 to 126), and the loop. The progress
  bar is not modelled.
\<close>

definition inspect_room ::
  "server \<Rightarrow> client \<Rightarrow> (string \<times> string option) list \<Rightarrow> string \<Rightarrow> (failure + client) \<times> call list" where
  "inspect_room srv c members room_id =
     (if room_id \<in> set (map fst (rooms_in_space c)) then (Inr c, [])
      else
       (case req c ''GET'' (''/_matrix/client/v3/rooms/'' @ room_id @ ''/joined_members'') None
               (srv_joined_members srv room_id) of
          (Inl f, cs) \<Rightarrow> (Inl f, cs)
        | (Inr joined, cs) \<Rightarrow>
            if is_dm_in_space (user_id c) members joined then
              (case correspondant_display_name (user_id c) joined of
                 Inl e \<Rightarrow> (Inl (Py e), cs)
               | Inr v \<Rightarrow>
                   (Inr (c\<lparr>rooms_in_space :=
                            dict_set room_id (''DM with '' @ format_value v) (rooms_in_space c)\<rparr>),
                    cs))
            else (Inr c, cs)))"

fun dm_loop ::
  "server \<Rightarrow> client \<Rightarrow> (string \<times> string option) list \<Rightarrow> string list \<Rightarrow> (failure + client) \<times> call list" where
  "dm_loop srv c members [] = (Inr c, [])"
| "dm_loop srv c members (room_id # rest) =
     (case inspect_room srv c members room_id of
        (Inl f, cs) \<Rightarrow> (Inl f, cs)
      | (Inr c', cs) \<Rightarrow>
          (case dm_loop srv c' members rest of
             (r, cs') \<Rightarrow> (r, cs @ cs')))"

text \<open>\<^verbatim>\<open>_dm_rooms_in_space\<close> (lines 71 to 126).\<close>

definition dm_rooms_in_space :: "server \<Rightarrow> client \<Rightarrow> string \<Rightarrow> (failure + client) \<times> call list" where
  "dm_rooms_in_space srv c space_id =
     (case req c ''GET'' (''/_matrix/client/v3/rooms/'' @ space_id @ ''/joined_members'') None
             (srv_joined_members srv space_id) of
        (Inl f, cs) \<Rightarrow> (Inl f, cs)
      | (Inr joined, cs) \<Rightarrow>
          (case dm_loop srv c (roster joined []) (joined_rooms c) of
             (r, cs') \<Rightarrow> (r, cs @ cs')))"

text \<open>\<^verbatim>\<open>find_rooms_in_space\<close> (lines 46 to 69).\<close>

definition find_rooms_in_space :: "server \<Rightarrow> client \<Rightarrow> string \<Rightarrow> (failure + client) \<times> call list" where
  "find_rooms_in_space srv c space =
     (case (if take 1 space = ''#''
            then req c ''GET'' (''/_matrix/client/v3/directory/room/'' @ quote space) None
                   (srv_directory srv space)
            else (Inr space, [])) of
        (Inl f, cs) \<Rightarrow> (Inl f, cs)
      | (Inr space_id, cs) \<Rightarrow>
         (case req c ''GET'' (''/_matrix/client/v1/rooms/'' @ space_id @ ''/hierarchy'') None
                 (srv_hierarchy srv space_id) of
            (Inl f, cs1) \<Rightarrow> (Inl f, cs @ cs1)
          | (Inr rooms, cs1) \<Rightarrow>
             (case hierarchy_rooms (joined_rooms c) rooms [] of
                Inl e \<Rightarrow> (Inl (Py e), cs @ cs1)
              | Inr d \<Rightarrow>
                 (case dm_rooms_in_space srv (c\<lparr>rooms_in_space := d\<rparr>) space_id of
                    (r, cs2) \<Rightarrow> (r, cs @ cs1 @ cs2)))))"

text \<open>
  \<^verbatim>\<open>change_display_name\<close> (lines 133 to 160): the profile request, then one \<^verbatim>\<open>PUT\<close> per
  room; an \<^verbatim>\<open>HttpError\<close> of a \<^verbatim>\<open>PUT\<close> is printed and the loop goes on.
\<close>

definition evt_content :: "string \<Rightarrow> string option \<Rightarrow> json" where
  "evt_content new_display_name avatar_url =
     JObj [(''membership'', JStr ''join''),
           (''displayname'', JStr new_display_name),
           (''avatar_url'', (case avatar_url of None \<Rightarrow> JNull | Some a \<Rightarrow> JStr a))]"

fun update_rooms ::
  "server \<Rightarrow> client \<Rightarrow> json \<Rightarrow> (string \<times> string) list \<Rightarrow> failure option \<times> call list" where
  "update_rooms srv c content [] = (None, [])"
| "update_rooms srv c content ((room_id, room_name) # rest) =
     (case req c ''PUT''
             (''/_matrix/client/v3/rooms/'' @ room_id @ ''/state/m.room.member/'' @ user_id c)
             (Some content) (srv_put_member srv room_id) of
        (Inl (HttpError code content' url), cs) \<Rightarrow>
          (case update_rooms srv c content rest of (r, cs') \<Rightarrow> (r, cs @ cs'))
      | (Inl f, cs) \<Rightarrow> (Some f, cs)
      | (Inr u, cs) \<Rightarrow>
          (case update_rooms srv c content rest of (r, cs') \<Rightarrow> (r, cs @ cs')))"

definition change_display_name :: "server \<Rightarrow> client \<Rightarrow> string \<Rightarrow> failure option \<times> call list" where
  "change_display_name srv c new_display_name =
     (case req c ''GET'' (''/_matrix/client/v3/profile/'' @ user_id c) None
             (srv_profile srv (user_id c)) of
        (Inl f, cs) \<Rightarrow> (Some f, cs)
      | (Inr avatar_url, cs) \<Rightarrow>
          (case update_rooms srv c (evt_content new_display_name avatar_url) (rooms_in_space c) of
             (r, cs') \<Rightarrow> (r, cs @ cs')))"

text \<open>
  \<^verbatim>\<open>str.lower\<close>, on ASCII text: the letters A to Z become a to z. (No character outside
  ASCII has the lower case \<^verbatim>\<open>y\<close>.)
\<close>

definition lower_char :: "char \<Rightarrow> char" where
  "lower_char c =
     (let n = (of_char c :: nat) in if 65 \<le> n \<and> n \<le> 90 then char_of (n + 32) else c)"

definition lower :: "string \<Rightarrow> string" where
  "lower s = map lower_char s"

text \<open>
  \<^verbatim>\<open>_main\<close> (lines 219 to 229). \<open>choice\<close> is the line \<^verbatim>\<open>input\<close> returns, read once the
  rooms have been found and listed (\<^verbatim>\<open>list_target_rooms\<close> only prints, and is left out).
\<close>

definition main_flow ::
  "server \<Rightarrow> string \<Rightarrow> string \<Rightarrow> string \<Rightarrow> string \<Rightarrow> string \<Rightarrow> failure option \<times> call list" where
  "main_flow srv uid token space new_display_name choice =
     (case client_init srv (new_client uid token) of
        (Inl f, cs) \<Rightarrow> (Some f, cs)
      | (Inr c, cs) \<Rightarrow>
         (case find_rooms_in_space srv c space of
            (Inl f, cs1) \<Rightarrow> (Some f, cs @ cs1)
          | (Inr c1, cs1) \<Rightarrow>
              if choice = [] \<or> lower choice = ''y''
              then (case change_display_name srv c1 new_display_name of
                      (r, cs2) \<Rightarrow> (r, cs @ cs1 @ cs2))
              else (None, cs @ cs1)))"

subsection \<open>A sample homeserver\<close>

text \<open>
  A homeserver without a well-known document, on which the user has joined one room of the
  space, a direct chat with a member of the space, one with a stranger and a larger room;
  and variants of it.
\<close>

definition sample_server :: server where
  "sample_server =
     \<lparr>srv_well_known = (\<lambda>domain. Reply 404 ''not found'' None),
      srv_joined_rooms = Reply 200 ''ok'' (Some [''!room1:hs'', ''!dm1:hs'', ''!dm2:hs'', ''!big:hs'']),
      srv_directory = (\<lambda>alias. if alias = ''#space:example.org'' then Reply 200 ''ok'' (Some ''!space:hs'')
                                 else Reply 404 ''not found'' None),
      srv_hierarchy = (\<lambda>space_id. Reply 200 ''ok''
          (Some [(''!room1:hs'', Some ''General''), (''!other:hs'', Some ''Other'')])),
      srv_joined_members = (\<lambda>room_id.
          if room_id = ''!space:hs'' then Reply 200 ''ok''
            (Some [(''@alice:example.org'', Present (Some ''Alice'')),
                   (''@bob:example.org'', Present (Some ''Bob'')),
                   (''@carol:example.org'', Absent)])
          else if room_id = ''!dm1:hs'' then Reply 200 ''ok''
            (Some [(''@alice:example.org'', Present (Some ''Alice'')),
                   (''@bob:example.org'', Present (Some ''Bobby''))])
          else if room_id = ''!dm2:hs'' then Reply 200 ''ok''
            (Some [(''@dave:example.org'', Present (Some ''Dave'')),
                   (''@alice:example.org'', Present (Some ''Alice''))])
          else if room_id = ''!dm3:hs'' then Reply 200 ''ok''
            (Some [(''@alice:example.org'', Present (Some ''Alice'')),
                   (''@carol:example.org'', Absent)])
          else Reply 200 ''ok''
            (Some [(''@alice:example.org'', Present (Some ''Alice'')),
                   (''@bob:example.org'', Present (Some ''Bob'')),
                   (''@carol:example.org'', Present None)])),
      srv_profile = (\<lambda>user. Reply 200 ''ok'' (Some (Some ''mxc://hs/a''))),
      srv_put_member = (\<lambda>room_id. Reply 200 ''ok'' (Some ()))\<rparr>"

definition no_well_known :: server where
  "no_well_known = sample_server\<lparr>srv_well_known := (\<lambda>domain. Reply 200 ''{}'' (Some (JObj [])))\<rparr>"

definition with_well_known :: server where
  "with_well_known = sample_server\<lparr>srv_well_known := (\<lambda>domain. Reply 200 ''{...}''
      (Some (JObj [(''m.homeserver'', JObj [(''base_url'', JStr ''https://matrix.example.org'')])])))\<rparr>"

definition nameless_dm :: server where
  "nameless_dm = sample_server\<lparr>srv_joined_rooms := Reply 200 ''ok'' (Some [''!room1:hs'', ''!dm3:hs''])\<rparr>"

text \<open>Whether a call is a state change: the only \<^verbatim>\<open>PUT\<close> of the script is the membership update.\<close>

definition is_put :: "call \<Rightarrow> bool" where
  "is_put cl = (case cl of Call method url kwargs \<Rightarrow> method = ''PUT'')"

definition no_base_url :: server where
  "no_base_url = sample_server\<lparr>srv_well_known := (\<lambda>domain. Reply 200 ''{...}''
      (Some (JObj [(''m.homeserver'', JObj [])])))\<rparr>"

text \<open>The acting user, and the state of a run on the sample homeserver before the prompt.\<close>

definition alice :: string where
  "alice = ''@alice:example.org''"

definition well_known_call :: call where
  "well_known_call = Call ''GET'' (Absolute ''https://example.org/.well-known/matrix/client'') None"

definition init_calls :: "call list" where
  "init_calls =
     [well_known_call,
      Call ''GET'' (OnBase (JStr ''https://example.org'') ''/_matrix/client/v3/joined_rooms'') None]"

definition ready_client :: client where
  "ready_client =
     \<lparr>user_id = alice, tok = ''secret'', base_url = JStr ''https://example.org'',
      joined_rooms = [''!room1:hs'', ''!dm1:hs'', ''!dm2:hs'', ''!big:hs''],
      rooms_in_space = []\<rparr>"

definition find_calls :: "call list" where
  "find_calls =
     map (\<lambda>path. Call ''GET'' (OnBase (JStr ''https://example.org'') path) None)
       [''/_matrix/client/v3/directory/room/%23space%3Aexample.org'',
        ''/_matrix/client/v1/rooms/!space:hs/hierarchy'',
        ''/_matrix/client/v3/rooms/!space:hs/joined_members'',
        ''/_matrix/client/v3/rooms/!dm1:hs/joined_members'',
        ''/_matrix/client/v3/rooms/!dm2:hs/joined_members'',
        ''/_matrix/client/v3/rooms/!big:hs/joined_members'']"

definition found_client :: client where
  "found_client =
     ready_client\<lparr>rooms_in_space := [(''!room1:hs'', ''General''), (''!dm1:hs'', ''DM with Bobby'')]\<rparr>"

section \<open>Properties of the deletion tool\<close>

subsection \<open>The events of the room loop\<close>

lemma deletion_requests_append:
  "deletion_requests (xs @ ys) = deletion_requests xs @ deletion_requests ys"
  by (induction xs rule: deletion_requests.induct) auto

lemma poll_status_events:
  "poll_status room_id del_id rs = (r, rs', ev) \<Longrightarrow>
     deletion_requests ev = [] \<and> (\<forall>e \<in> set ev. \<not> is_tally e \<and> \<not> is_listing e)"
proof (induction rs arbitrary: r rs' ev)
  case Nil
  then show ?case by auto
next
  case (Cons res rs)
  then show ?case
    by (fastforce simp: Let_def deletion_requests_append split: option.splits sum.splits if_splits prod.splits)
qed

lemma process_room_events:
  "process_room room d rs = (r, rs', ev) \<Longrightarrow> \<forall>e \<in> set ev. \<not> is_tally e \<and> \<not> is_listing e"
  unfolding process_room_def
  by (auto simp: Let_def split: option.splits sum.splits if_splits prod.splits list.splits
           dest!: poll_status_events)

lemma process_room_skip:
  assumes "subscript room ''room_id'' = Inr room_id"
    and "subscript room ''joined_local_members'' = Inr members"
    and "ne_zero members"
  shows "process_room room d rs = (Inr d, rs, [Print (Skipping room_id)])"
  using assms by (simp add: process_room_def)

lemma process_room_tally:
  "process_room room d rs = (Inr d', rs', ev) \<Longrightarrow>
     d' = (if no_local_members room then d + 1 else d)"
  unfolding process_room_def no_local_members_def
  by (auto simp: Let_def split: option.splits sum.splits if_splits prod.splits list.splits)

lemma process_room_deletions_done:
  "process_room room d rs = (Inr d', rs', ev) \<Longrightarrow>
     deletion_requests ev = forgotten_room_ids [room]"
  by (auto simp: process_room_def no_local_members_def Let_def deletion_requests_append split: option.splits sum.splits if_splits prod.splits list.splits
      dest!: poll_status_events)

lemma process_room_deletions:
  "process_room room d rs = (r, rs', ev) \<Longrightarrow>
     prefix (deletion_requests ev) (forgotten_room_ids [room])"
  by (auto simp: process_room_def no_local_members_def Let_def deletion_requests_append split: option.splits sum.splits if_splits prod.splits list.splits
      dest!: poll_status_events)


lemma process_rooms_tally:
  "process_rooms rooms d rs = (Inr d', rs', ev) \<Longrightarrow>
     d' = d + int (length (filter no_local_members rooms))"
proof (induction rooms arbitrary: d rs ev)
  case Nil
  then show ?case by simp
next
  case (Cons room rooms)
  from Cons.prems obtain d1 rs1 ev1 ev2 where
    one: "process_room room d rs = (Inr d1, rs1, ev1)" and
    rest: "process_rooms rooms d1 rs1 = (Inr d', rs', ev2)"
    by (auto split: prod.splits sum.splits)
  from process_room_tally [OF one] Cons.IH [OF rest] show ?case by simp
qed

lemma process_rooms_deletions:
  "process_rooms rooms d rs = (r, rs', ev) \<Longrightarrow>
     prefix (deletion_requests ev) (forgotten_room_ids rooms) \<and>
     (\<forall>d'. r = Inr d' \<longrightarrow> deletion_requests ev = forgotten_room_ids rooms)"
proof (induction rooms arbitrary: d rs r rs' ev)
  case Nil
  then show ?case by simp
next
  case (Cons room rooms)
  obtain a rs1 ev1 where one: "process_room room d rs = (a, rs1, ev1)"
    by (cases "process_room room d rs") auto
  have split: "forgotten_room_ids (room # rooms) = forgotten_room_ids [room] @ forgotten_room_ids rooms"
    by (simp split: sum.splits)
  show ?case
  proof (cases a)
    case (Inl s)
    with Cons.prems one have "ev = ev1" "r = Inl s" by simp_all
    with process_room_deletions [OF one] show ?thesis
      unfolding split by (auto simp: prefix_def)
  next
    case (Inr d1)
    obtain r2 rs2 ev2 where rest: "process_rooms rooms d1 rs1 = (r2, rs2, ev2)"
      by (cases "process_rooms rooms d1 rs1") auto
    from Cons.prems one Inr rest have ev: "ev = ev1 @ ev2" and r: "r = r2" by simp_all
    from one Inr have "deletion_requests ev1 = forgotten_room_ids [room]"
      using process_room_deletions_done by blast
    with Cons.IH [OF rest] show ?thesis
      unfolding split ev r by (simp add: deletion_requests_append)
  qed
qed

lemma process_rooms_events:
  "process_rooms rooms d rs = (r, rs', ev) \<Longrightarrow> \<forall>e \<in> set ev. \<not> is_tally e \<and> \<not> is_listing e"
proof (induction rooms arbitrary: d rs r rs' ev)
  case Nil
  then show ?case by simp
next
  case (Cons room rooms)
  obtain a rs1 ev1 where one: "process_room room d rs = (a, rs1, ev1)"
    by (cases "process_room room d rs") auto
  note ev1 = process_room_events [OF one]
  show ?case
  proof (cases a)
    case (Inl s)
    with Cons.prems one ev1 show ?thesis by simp
  next
    case (Inr d1)
    obtain r2 rs2 ev2 where rest: "process_rooms rooms d1 rs1 = (r2, rs2, ev2)"
      by (cases "process_rooms rooms d1 rs1") auto
    from Cons.prems one Inr rest have "ev = ev1 @ ev2" by simp
    with ev1 Cons.IH [OF rest] show ?thesis by auto
  qed
qed


lemma split_after_prefix:
  assumes "\<forall>e \<in> set A. \<not> P e" and "P x" and "A @ y # B = pre @ x # post"
  shows "(pre = A \<and> x = y \<and> post = B) \<or> (\<exists>pre'. pre = A @ y # pre' \<and> B = pre' @ x # post)"
  using assms
  by (auto simp: append_eq_append_conv2 append_eq_Cons_conv Cons_eq_append_conv)

lemma tool_loop_stop: "d \<noteq> bs \<Longrightarrow> tool_loop bs d rs = (Finished, rs, [])"
  by simp

lemma tool_loop_round:
  assumes "tool_loop bs bs rs = (r, rs', ev)"
  shows "(\<exists>rest. ev = GetRooms bs # rest \<and> (\<forall>e \<in> set rest. \<not> is_tally e \<and> \<not> is_listing e)) \<or>
         (\<exists>res rs1 j rooms items d' rs2 evp ev3.
            rs = res # rs1 \<and> res_ok res \<and> res_json res = Some j \<and>
            subscript j ''rooms'' = Inr rooms \<and> py_iter rooms = Inr items \<and>
            process_rooms items 0 rs1 = (Inr d', rs2, evp) \<and>
            tool_loop bs d' rs2 = (r, rs', ev3) \<and>
            ev = [GetRooms bs, Print (Retrieved (length items))] @ evp @
                 [Print (Deleted d' (length items))] @ ev3)"
proof (cases rs)
  case Nil
  with assms show ?thesis by auto
next
  case (Cons res rs1)
  show ?thesis
  proof (cases "res_ok res \<and> (\<exists>j rooms items. res_json res = Some j \<and>
            subscript j ''rooms'' = Inr rooms \<and> py_iter rooms = Inr items)")
    case False
    with assms Cons show ?thesis
      by (subst (asm) tool_loop.simps) (auto split: option.splits sum.splits if_splits)
  next
    case True
    then obtain j rooms items where ok: "res_ok res" "res_json res = Some j"
      "subscript j ''rooms'' = Inr rooms" "py_iter rooms = Inr items" by blast
    obtain a rs2 evp where page: "process_rooms items 0 rs1 = (a, rs2, evp)"
      by (cases "process_rooms items 0 rs1") auto
    note evp = process_rooms_events [OF page]
    show ?thesis
    proof (cases a)
      case (Inl s)
      with assms Cons ok page have "ev = [GetRooms bs, Print (Retrieved (length items))] @ evp"
        by (subst (asm) tool_loop.simps) simp
      with evp show ?thesis by simp
    next
      case (Inr d')
      obtain r3 rs3 ev3 where rest: "tool_loop bs d' rs2 = (r3, rs3, ev3)"
        by (cases "tool_loop bs d' rs2") auto
      with assms Cons ok page Inr have "r = r3" "rs' = rs3"
        "ev = [GetRooms bs, Print (Retrieved (length items))] @ evp @
                 [Print (Deleted d' (length items))] @ ev3"
        by (subst (asm) tool_loop.simps, simp)+
      with Cons ok page Inr rest show ?thesis by blast
    qed
  qed
qed

lemma tool_loop_short_page:
  "tool_loop bs d0 rs = (r, rs', ev) \<Longrightarrow> ev = pre @ Print (Deleted d n) # post \<Longrightarrow>
     d \<noteq> bs \<Longrightarrow> post = [] \<and> r = Finished"
proof (induction bs d0 rs arbitrary: r rs' ev pre rule: tool_loop.induct)
  case (1 bs d0 rs)
  show ?case
  proof (cases "d0 = bs")
    case False
    with "1.prems" show ?thesis by simp
  next
    case True
    with "1.prems"(1) have run: "tool_loop bs bs rs = (r, rs', ev)" by simp
    from tool_loop_round [OF run] show ?thesis
    proof (elim disjE exE conjE)
      fix rest
      assume "ev = GetRooms bs # rest" "\<forall>e \<in> set rest. \<not> is_tally e \<and> \<not> is_listing e"
      then have "\<forall>e \<in> set ev. \<not> is_tally e" by simp
      with "1.prems"(2) show ?thesis by simp
    next
      fix res rs1 j rooms items d' rs2 evp ev3
      assume a: "rs = res # rs1" "res_ok res" "res_json res = Some j"
        "subscript j ''rooms'' = Inr rooms" "py_iter rooms = Inr items"
        "process_rooms items 0 rs1 = (Inr d', rs2, evp)"
        "tool_loop bs d' rs2 = (r, rs', ev3)"
        "ev = [GetRooms bs, Print (Retrieved (length items))] @ evp @
                 [Print (Deleted d' (length items))] @ ev3"
      let ?A = "[GetRooms bs, Print (Retrieved (length items))] @ evp"
      have noA: "\<forall>e \<in> set ?A. \<not> is_tally e"
        using process_rooms_events [OF a(6)] by simp
      have eq: "?A @ Print (Deleted d' (length items)) # ev3 = pre @ Print (Deleted d n) # post"
        using a(8) "1.prems"(2) by simp
      have "is_tally (Print (Deleted d n))" by simp
      from split_after_prefix [where P = is_tally, OF noA this eq]
      show ?thesis
      proof (elim disjE exE conjE)
        assume "Print (Deleted d n) = Print (Deleted d' (length items))" "post = ev3"
        with a(7) "1.prems"(3) show ?thesis by simp
      next
        fix pre'
        assume "ev3 = pre' @ Print (Deleted d n) # post"
        from "1.IH" [OF _ a(1) _ a(3) a(4) a(5) _ _ _ a(7) this "1.prems"(3), of "Inr d'" "(rs2, evp)" evp]
          True a(2) a(6)
        show ?thesis by simp
      qed
    qed
  qed
qed


lemma tool_loop_listing:
  "tool_loop bs d0 rs = (r, rs', ev) \<Longrightarrow> ev = pre @ GetRooms k # post \<Longrightarrow>
     pre = [] \<or> (\<exists>pre' n. pre = pre' @ [Print (Deleted bs n)])"
proof (induction bs d0 rs arbitrary: r rs' ev pre rule: tool_loop.induct)
  case (1 bs d0 rs)
  show ?case
  proof (cases "d0 = bs")
    case False
    with "1.prems" show ?thesis by simp
  next
    case True
    with "1.prems"(1) have run: "tool_loop bs bs rs = (r, rs', ev)" by simp
    from tool_loop_round [OF run] show ?thesis
    proof (elim disjE exE conjE)
      fix rest
      assume "ev = GetRooms bs # rest" "\<forall>e \<in> set rest. \<not> is_tally e \<and> \<not> is_listing e"
      with "1.prems"(2) show ?thesis
        by (cases pre) auto
    next
      fix res rs1 j rooms items d' rs2 evp ev3
      assume a: "rs = res # rs1" "res_ok res" "res_json res = Some j"
        "subscript j ''rooms'' = Inr rooms" "py_iter rooms = Inr items"
        "process_rooms items 0 rs1 = (Inr d', rs2, evp)"
        "tool_loop bs d' rs2 = (r, rs', ev3)"
        "ev = [GetRooms bs, Print (Retrieved (length items))] @ evp @
                 [Print (Deleted d' (length items))] @ ev3"
      let ?A = "Print (Retrieved (length items)) # evp @ [Print (Deleted d' (length items))]"
      have noA: "\<forall>e \<in> set ?A. \<not> is_listing e"
        using process_rooms_events [OF a(6)] by simp
      show ?thesis
      proof (cases pre)
        case Nil
        then show ?thesis by simp
      next
        case (Cons e pre1)
        with a(8) "1.prems"(2) have eq: "?A @ ev3 = pre1 @ GetRooms k # post" by simp
        have "\<exists>pre2. pre1 = ?A @ pre2 \<and> ev3 = pre2 @ GetRooms k # post"
          using eq noA
          by (auto simp: append_eq_append_conv2 append_eq_Cons_conv Cons_eq_append_conv)
        then obtain pre2 where p: "pre1 = ?A @ pre2" "ev3 = pre2 @ GetRooms k # post" by blast
        have d': "d' = bs"
        proof (rule ccontr)
          assume "d' \<noteq> bs"
          with a(7) p(2) show False by simp
        qed
        from "1.IH" [OF _ a(1) _ a(3) a(4) a(5) _ _ _ a(7) p(2), of "Inr d'" "(rs2, evp)" evp]
          True a(2) a(6)
        have "pre2 = [] \<or> (\<exists>pre' n. pre2 = pre' @ [Print (Deleted bs n)])" by simp
        then show ?thesis
        proof
          assume "pre2 = []"
          with Cons p(1) d' have "pre = (e # Print (Retrieved (length items)) # evp) @ [Print (Deleted bs (length items))]"
            by simp
          then show ?thesis by blast
        next
          assume "\<exists>pre' n. pre2 = pre' @ [Print (Deleted bs n)]"
          then obtain pre' n where "pre2 = pre' @ [Print (Deleted bs n)]" by blast
          with Cons p(1) have "pre = (e # ?A @ pre') @ [Print (Deleted bs n)]" by simp
          then show ?thesis by blast
        qed
      qed
    qed
  qed
qed

subsection \<open>Claims\<close>

text \<open>
  C1 (the code departs from it). The claim: a status query that fails is printed and
  retried, and never ends the polling loop nor the process. The source says so on line
  109, but has no \<^verbatim>\<open>continue\<close> after the diagnostic: lines 117 and 118 read
  \<^verbatim>\<open>status\<close> from the body of the failed response. On the error body a homeserver sends
  (\<^verbatim>\<open>errcode\<close> and \<^verbatim>\<open>error\<close>, no \<^verbatim>\<open>status\<close>) the lookup raises \<^verbatim>\<open>KeyError\<close>: the run
  stops there, and the response that would have completed the deletion is never asked for.
\<close>

theorem failed_status_query_aborts_run:
  "delete_forgotten_rooms 100
     [Response True (Some (JObj [(''rooms'', JArr [JObj [(''room_id'', JStr ''!a:hs''),
                                                        (''joined_local_members'', JInt 0)]])])),
      Response True (Some (JObj [(''delete_id'', JStr ''d1'')])),
      Response False (Some (JObj [(''errcode'', JStr ''M_NOT_FOUND''), (''error'', JStr ''not found'')])),
      Response True (Some (JObj [(''status'', JStr ''complete'')]))]
   = (Raise (KeyError ''status''),
      [Response True (Some (JObj [(''status'', JStr ''complete'')]))],
      [GetRooms 100, Print (Retrieved 1), Print (Deleting (JStr ''!a:hs'')),
       DeleteRoom (JStr ''!a:hs''), Sleep, GetStatus (JStr ''d1''),
       Print (StatusFailed (JStr ''!a:hs'') (JStr ''d1'')),
       Print (Details (JObj [(''errcode'', JStr ''M_NOT_FOUND''), (''error'', JStr ''not found'')]))])"
  by (simp add: delete_forgotten_rooms_def process_room_def)

text \<open>
  C4. The counter \<^verbatim>\<open>deleted_rooms\<close> is incremented before the deletion request is sent: a
  room without local members whose deletion request is refused still adds one. When a page
  has been processed the counter has grown by the number of rooms of the page without
  local members, whatever the homeserver answered. And that number is the one printed for
  the page and the one the \<^verbatim>\<open>while\<close> condition is tested on for the next round.
\<close>

theorem failed_deletion_still_counted:
  "(subscript room ''room_id'' = Inr room_id \<and> no_local_members room \<and>
    \<not> res_ok res \<and> res_json res = Some j \<longrightarrow>
      process_room room d (res # rs) =
        (Inr (d + 1), rs,
         [Print (Deleting room_id), DeleteRoom room_id,
          Print (DeleteFailed room_id), Print (Details j)])) \<and>
   (process_rooms rooms start script = (Inr d', rs', ev) \<longrightarrow>
      d' = start + int (length (filter no_local_members rooms))) \<and>
   (res_ok page \<and> res_json page = Some body \<and> subscript body ''rooms'' = Inr listing \<and>
    py_iter listing = Inr items \<and> process_rooms items 0 rest = (Inr tally, rest', evp) \<longrightarrow>
      tally = int (length (filter no_local_members items)) \<and>
      tool_loop batch_size batch_size (page # rest) =
        (fst (tool_loop batch_size tally rest'),
         fst (snd (tool_loop batch_size tally rest')),
         [GetRooms batch_size, Print (Retrieved (length items))] @ evp @
         [Print (Deleted tally (length items))] @
         snd (snd (tool_loop batch_size tally rest'))))"
proof (intro conjI)
  show "subscript room ''room_id'' = Inr room_id \<and> no_local_members room \<and>
    \<not> res_ok res \<and> res_json res = Some j \<longrightarrow>
      process_room room d (res # rs) =
        (Inr (d + 1), rs,
         [Print (Deleting room_id), DeleteRoom room_id,
          Print (DeleteFailed room_id), Print (Details j)])"
    by (auto simp: process_room_def no_local_members_def split: sum.splits)
  show "process_rooms rooms start script = (Inr d', rs', ev) \<longrightarrow>
      d' = start + int (length (filter no_local_members rooms))"
    by (rule impI) (rule process_rooms_tally)
  show "res_ok page \<and> res_json page = Some body \<and> subscript body ''rooms'' = Inr listing \<and>
    py_iter listing = Inr items \<and> process_rooms items 0 rest = (Inr tally, rest', evp) \<longrightarrow>
      tally = int (length (filter no_local_members items)) \<and>
      tool_loop batch_size batch_size (page # rest) =
        (fst (tool_loop batch_size tally rest'),
         fst (snd (tool_loop batch_size tally rest')),
         [GetRooms batch_size, Print (Retrieved (length items))] @ evp @
         [Print (Deleted tally (length items))] @
         snd (snd (tool_loop batch_size tally rest')))"
  proof
    assume a: "res_ok page \<and> res_json page = Some body \<and> subscript body ''rooms'' = Inr listing \<and>
      py_iter listing = Inr items \<and> process_rooms items 0 rest = (Inr tally, rest', evp)"
    then have p: "process_rooms items 0 rest = (Inr tally, rest', evp)" by simp
    from process_rooms_tally [OF p]
    have t: "tally = int (length (filter no_local_members items))" by simp
    from a have "tool_loop batch_size batch_size (page # rest) =
        (fst (tool_loop batch_size tally rest'),
         fst (snd (tool_loop batch_size tally rest')),
         [GetRooms batch_size, Print (Retrieved (length items))] @ evp @
         [Print (Deleted tally (length items))] @
         snd (snd (tool_loop batch_size tally rest')))"
      by (subst tool_loop.simps) (simp split: prod.splits)
    with t show "tally = int (length (filter no_local_members items)) \<and>
      tool_loop batch_size batch_size (page # rest) =
        (fst (tool_loop batch_size tally rest'),
         fst (snd (tool_loop batch_size tally rest')),
         [GetRooms batch_size, Print (Retrieved (length items))] @ evp @
         [Print (Deleted tally (length items))] @
         snd (snd (tool_loop batch_size tally rest')))"
      by (rule conjI)
  qed
qed


theorem failed_deletion_still_counted_witness:
  "subscript room_a ''room_id'' = Inr (JStr ''!a:hs'') \<and> no_local_members room_a \<and>
   \<not> res_ok delete_refused \<and> res_json delete_refused = Some (JObj [(''errcode'', JStr ''M_UNKNOWN'')]) \<and>
   process_room room_a 0 [delete_refused, delete_accepted, status_complete] =
     (Inr 1, [delete_accepted, status_complete],
      [Print (Deleting (JStr ''!a:hs'')), DeleteRoom (JStr ''!a:hs''),
       Print (DeleteFailed (JStr ''!a:hs'')), Print (Details (JObj [(''errcode'', JStr ''M_UNKNOWN'')]))]) \<and>
   res_ok page_ab \<and> res_json page_ab = Some (JObj [(''rooms'', JArr [room_a, room_b])]) \<and>
   subscript (JObj [(''rooms'', JArr [room_a, room_b])]) ''rooms'' = Inr (JArr [room_a, room_b]) \<and>
   py_iter (JArr [room_a, room_b]) = Inr [room_a, room_b] \<and>
   process_rooms [room_a, room_b] 0
     [delete_refused, delete_accepted, status_complete, page_cb, delete_accepted, status_complete] =
     (Inr 2, [page_cb, delete_accepted, status_complete],
      [Print (Deleting (JStr ''!a:hs'')), DeleteRoom (JStr ''!a:hs''),
       Print (DeleteFailed (JStr ''!a:hs'')), Print (Details (JObj [(''errcode'', JStr ''M_UNKNOWN'')])),
       Print (Deleting (JStr ''!b:hs'')), DeleteRoom (JStr ''!b:hs''), Sleep, GetStatus (JStr ''d2'')]) \<and>
   (2::int) = 0 + int (length (filter no_local_members [room_a, room_b])) \<and>
   tool_loop 2 2
     [page_ab, delete_refused, delete_accepted, status_complete, page_cb, delete_accepted,
      status_complete] =
     (Finished, [],
      [GetRooms 2, Print (Retrieved 2)] @
      [Print (Deleting (JStr ''!a:hs'')), DeleteRoom (JStr ''!a:hs''),
       Print (DeleteFailed (JStr ''!a:hs'')), Print (Details (JObj [(''errcode'', JStr ''M_UNKNOWN'')])),
       Print (Deleting (JStr ''!b:hs'')), DeleteRoom (JStr ''!b:hs''), Sleep, GetStatus (JStr ''d2'')] @
      [Print (Deleted 2 2)] @
      [GetRooms 2, Print (Retrieved 2), Print (Deleting (JStr ''!b:hs'')),
       DeleteRoom (JStr ''!b:hs''), Sleep, GetStatus (JStr ''d2''),
       Print (Skipping (JStr ''!c:hs'')), Print (Deleted 1 2)])"
proof -
  have h1: "subscript room_a ''room_id'' = Inr (JStr ''!a:hs'') \<and> no_local_members room_a \<and>
   \<not> res_ok delete_refused \<and> res_json delete_refused = Some (JObj [(''errcode'', JStr ''M_UNKNOWN'')])"
    by (simp add: room_a_def delete_refused_def no_local_members_def)
  have h2: "process_rooms [room_a, room_b] 0
     [delete_refused, delete_accepted, status_complete, page_cb, delete_accepted, status_complete] =
     (Inr 2, [page_cb, delete_accepted, status_complete],
      [Print (Deleting (JStr ''!a:hs'')), DeleteRoom (JStr ''!a:hs''),
       Print (DeleteFailed (JStr ''!a:hs'')), Print (Details (JObj [(''errcode'', JStr ''M_UNKNOWN'')])),
       Print (Deleting (JStr ''!b:hs'')), DeleteRoom (JStr ''!b:hs''), Sleep, GetStatus (JStr ''d2'')])"
    by (simp add: room_a_def room_b_def delete_refused_def delete_accepted_def
        status_complete_def process_room_def)
  have h3: "res_ok page_ab \<and> res_json page_ab = Some (JObj [(''rooms'', JArr [room_a, room_b])]) \<and>
   subscript (JObj [(''rooms'', JArr [room_a, room_b])]) ''rooms'' = Inr (JArr [room_a, room_b]) \<and>
   py_iter (JArr [room_a, room_b]) = Inr [room_a, room_b]"
    by (simp add: page_ab_def)
  have next_round: "tool_loop 2 2 [page_cb, delete_accepted, status_complete] =
     (Finished, [],
      [GetRooms 2, Print (Retrieved 2), Print (Deleting (JStr ''!b:hs'')),
       DeleteRoom (JStr ''!b:hs''), Sleep, GetStatus (JStr ''d2''),
       Print (Skipping (JStr ''!c:hs'')), Print (Deleted 1 2)])"
    by (simp add: page_cb_def room_b_def room_c_def delete_accepted_def status_complete_def
        process_room_def)
  note inst = failed_deletion_still_counted [where room = room_a and room_id = "JStr ''!a:hs''"
      and res = delete_refused and j = "JObj [(''errcode'', JStr ''M_UNKNOWN'')]" and d = 0
      and rs = "[delete_accepted, status_complete]" and rooms = "[room_a, room_b]" and start = 0
      and script = "[delete_refused, delete_accepted, status_complete, page_cb, delete_accepted,
                     status_complete]"
      and d' = 2 and rs' = "[page_cb, delete_accepted, status_complete]"
      and page = page_ab and body = "JObj [(''rooms'', JArr [room_a, room_b])]"
      and listing = "JArr [room_a, room_b]" and items = "[room_a, room_b]"
      and rest = "[delete_refused, delete_accepted, status_complete, page_cb, delete_accepted,
                   status_complete]"
      and tally = 2 and rest' = "[page_cb, delete_accepted, status_complete]" and batch_size = 2]
  from inst [THEN conjunct1, THEN mp, OF h1]
  have c1: "process_room room_a 0 [delete_refused, delete_accepted, status_complete] =
     (Inr 1, [delete_accepted, status_complete],
      [Print (Deleting (JStr ''!a:hs'')), DeleteRoom (JStr ''!a:hs''),
       Print (DeleteFailed (JStr ''!a:hs'')), Print (Details (JObj [(''errcode'', JStr ''M_UNKNOWN'')]))])"
    by simp
  note c2 = inst [THEN conjunct2, THEN conjunct1, THEN mp, OF h2]
  from h3 h2 have h3': "res_ok page_ab \<and> res_json page_ab = Some (JObj [(''rooms'', JArr [room_a, room_b])]) \<and>
   subscript (JObj [(''rooms'', JArr [room_a, room_b])]) ''rooms'' = Inr (JArr [room_a, room_b]) \<and>
   py_iter (JArr [room_a, room_b]) = Inr [room_a, room_b] \<and>
   process_rooms [room_a, room_b] 0
     [delete_refused, delete_accepted, status_complete, page_cb, delete_accepted, status_complete] =
     (Inr 2, [page_cb, delete_accepted, status_complete],
      [Print (Deleting (JStr ''!a:hs'')), DeleteRoom (JStr ''!a:hs''),
       Print (DeleteFailed (JStr ''!a:hs'')), Print (Details (JObj [(''errcode'', JStr ''M_UNKNOWN'')])),
       Print (Deleting (JStr ''!b:hs'')), DeleteRoom (JStr ''!b:hs''), Sleep, GetStatus (JStr ''d2'')])"
    by - (elim conjE, intro conjI, assumption+)
  note c3 = inst [THEN conjunct2, THEN conjunct2, THEN mp, OF h3', THEN conjunct2,
      unfolded next_round fst_conv snd_conv length_Cons list.size]
  have c3': "tool_loop 2 2
     [page_ab, delete_refused, delete_accepted, status_complete, page_cb, delete_accepted,
      status_complete] =
     (Finished, [],
      [GetRooms 2, Print (Retrieved 2)] @
      [Print (Deleting (JStr ''!a:hs'')), DeleteRoom (JStr ''!a:hs''),
       Print (DeleteFailed (JStr ''!a:hs'')), Print (Details (JObj [(''errcode'', JStr ''M_UNKNOWN'')])),
       Print (Deleting (JStr ''!b:hs'')), DeleteRoom (JStr ''!b:hs''), Sleep, GetStatus (JStr ''d2'')] @
      [Print (Deleted 2 2)] @
      [GetRooms 2, Print (Retrieved 2), Print (Deleting (JStr ''!b:hs'')),
       DeleteRoom (JStr ''!b:hs''), Sleep, GetStatus (JStr ''d2''),
       Print (Skipping (JStr ''!c:hs'')), Print (Deleted 1 2)])"
    using c3 by (simp del: tool_loop.simps)
  from h1 c1 h3 h2 c2 c3' show ?thesis by - (elim conjE, intro conjI, assumption+)
qed

text \<open>
  C5. A room whose \<^verbatim>\<open>joined_local_members\<close> is not zero is skipped with a notice: no
  request is sent for it and the counter is unchanged. The deletion requests sent while a
  page is processed are, in order, the identifiers of the rooms of the page without local
  members: a prefix of them when the page is cut short, all of them when it completes.
\<close>

theorem skip_rule:
  "(subscript room ''room_id'' = Inr room_id \<and>
    subscript room ''joined_local_members'' = Inr members \<and> ne_zero members \<longrightarrow>
      process_room room d rs = (Inr d, rs, [Print (Skipping room_id)])) \<and>
   (process_rooms rooms start script = (r, rs', ev) \<longrightarrow>
      prefix (deletion_requests ev) (forgotten_room_ids rooms) \<and>
      (\<forall>d'. r = Inr d' \<longrightarrow> deletion_requests ev = forgotten_room_ids rooms))"
proof (rule conjI)
  show "subscript room ''room_id'' = Inr room_id \<and>
    subscript room ''joined_local_members'' = Inr members \<and> ne_zero members \<longrightarrow>
      process_room room d rs = (Inr d, rs, [Print (Skipping room_id)])"
    by (simp add: process_room_skip)
  show "process_rooms rooms start script = (r, rs', ev) \<longrightarrow>
      prefix (deletion_requests ev) (forgotten_room_ids rooms) \<and>
      (\<forall>d'. r = Inr d' \<longrightarrow> deletion_requests ev = forgotten_room_ids rooms)"
    by (rule impI) (rule process_rooms_deletions)
qed

theorem skip_rule_witness:
  "subscript room_c ''room_id'' = Inr (JStr ''!c:hs'') \<and>
   subscript room_c ''joined_local_members'' = Inr (JInt 3) \<and> ne_zero (JInt 3) \<and>
   process_room room_c 0 [delete_accepted, status_complete] =
     (Inr 0, [delete_accepted, status_complete], [Print (Skipping (JStr ''!c:hs''))]) \<and>
   process_rooms [room_c, room_b, room_c] 0 [delete_accepted, status_complete] =
     (Inr 1, [],
      [Print (Skipping (JStr ''!c:hs'')), Print (Deleting (JStr ''!b:hs'')),
       DeleteRoom (JStr ''!b:hs''), Sleep, GetStatus (JStr ''d2''),
       Print (Skipping (JStr ''!c:hs''))]) \<and>
   deletion_requests
      [Print (Skipping (JStr ''!c:hs'')), Print (Deleting (JStr ''!b:hs'')),
       DeleteRoom (JStr ''!b:hs''), Sleep, GetStatus (JStr ''d2''),
       Print (Skipping (JStr ''!c:hs''))] = forgotten_room_ids [room_c, room_b, room_c] \<and>
   forgotten_room_ids [room_c, room_b, room_c] = [JStr ''!b:hs'']"
proof -
  have h1: "subscript room_c ''room_id'' = Inr (JStr ''!c:hs'') \<and>
   subscript room_c ''joined_local_members'' = Inr (JInt 3) \<and> ne_zero (JInt 3)"
    by (simp add: room_c_def)
  have h2: "process_rooms [room_c, room_b, room_c] 0 [delete_accepted, status_complete] =
     (Inr 1, [],
      [Print (Skipping (JStr ''!c:hs'')), Print (Deleting (JStr ''!b:hs'')),
       DeleteRoom (JStr ''!b:hs''), Sleep, GetStatus (JStr ''d2''),
       Print (Skipping (JStr ''!c:hs''))])"
    by (simp add: room_b_def room_c_def delete_accepted_def status_complete_def process_room_def)
  have h3: "forgotten_room_ids [room_c, room_b, room_c] = [JStr ''!b:hs'']"
    by (simp add: room_b_def room_c_def no_local_members_def)
  note inst = skip_rule [where room = room_c and room_id = "JStr ''!c:hs''" and members = "JInt 3"
      and d = 0 and rs = "[delete_accepted, status_complete]" and rooms = "[room_c, room_b, room_c]"
      and start = 0 and script = "[delete_accepted, status_complete]" and r = "Inr 1" and rs' = "[]"]
  note c1 = inst [THEN conjunct1, THEN mp, OF h1]
  note c2 = inst [THEN conjunct2, THEN mp, OF h2, THEN conjunct2, rule_format, OF refl]
  from h1 c1 h2 c2 h3 show ?thesis by - (elim conjE, intro conjI, assumption+)
qed

text \<open>
  C8. In every run, the tally printed for a page whose count differs from the batch size
  is the last event and the run is finished: no listing request follows it. And every
  listing request is either the first event of the run or comes right after the tally of a
  page whose count equals the batch size.
\<close>

theorem short_page_ends_run:
  "delete_forgotten_rooms batch_size rs = (r, rs', ev) \<Longrightarrow>
     (\<forall>pre d n post. ev = pre @ Print (Deleted d n) # post \<and> d \<noteq> batch_size \<longrightarrow>
         post = [] \<and> r = Finished) \<and>
     (\<forall>pre k post. ev = pre @ GetRooms k # post \<longrightarrow>
         pre = [] \<or> (\<exists>pre' n. pre = pre' @ [Print (Deleted batch_size n)]))"
proof (rule conjI)
  assume run: "delete_forgotten_rooms batch_size rs = (r, rs', ev)"
  then have loop: "tool_loop batch_size batch_size rs = (r, rs', ev)"
    by (simp only: delete_forgotten_rooms_def)
  show "\<forall>pre d n post. ev = pre @ Print (Deleted d n) # post \<and> d \<noteq> batch_size \<longrightarrow>
         post = [] \<and> r = Finished"
  proof (intro allI impI, elim conjE)
    fix pre d n post
    assume "ev = pre @ Print (Deleted d n) # post" and "d \<noteq> batch_size"
    with loop show "post = [] \<and> r = Finished" by (rule tool_loop_short_page)
  qed
  show "\<forall>pre k post. ev = pre @ GetRooms k # post \<longrightarrow>
         pre = [] \<or> (\<exists>pre' n. pre = pre' @ [Print (Deleted batch_size n)])"
  proof (intro allI impI)
    fix pre k post
    assume "ev = pre @ GetRooms k # post"
    with loop show "pre = [] \<or> (\<exists>pre' n. pre = pre' @ [Print (Deleted batch_size n)])"
      by (rule tool_loop_listing)
  qed
qed

theorem short_page_ends_run_witness:
  "delete_forgotten_rooms 2 [page_cb, delete_accepted, status_complete, page_cb] =
     (Finished, [page_cb],
      [GetRooms 2, Print (Retrieved 2), Print (Deleting (JStr ''!b:hs'')),
       DeleteRoom (JStr ''!b:hs''), Sleep, GetStatus (JStr ''d2''),
       Print (Skipping (JStr ''!c:hs''))] @ Print (Deleted 1 2) # []) \<and>
   (1::int) \<noteq> 2 \<and> ([]::event list) = [] \<and> Finished = Finished"
proof -
  have run: "delete_forgotten_rooms 2 [page_cb, delete_accepted, status_complete, page_cb] =
     (Finished, [page_cb],
      [GetRooms 2, Print (Retrieved 2), Print (Deleting (JStr ''!b:hs'')),
       DeleteRoom (JStr ''!b:hs''), Sleep, GetStatus (JStr ''d2''),
       Print (Skipping (JStr ''!c:hs''))] @ Print (Deleted 1 2) # [])"
    by (simp add: delete_forgotten_rooms_def page_cb_def room_b_def room_c_def delete_accepted_def
        status_complete_def process_room_def)
  have short: "(1::int) \<noteq> 2" by simp
  note ends = short_page_ends_run [OF run, THEN conjunct1, rule_format]
  have fin: "([]::event list) = [] \<and> Finished = Finished"
    by (rule ends [where d = 1 and n = 2]) simp
  from run short fin show ?thesis by - (elim conjE, intro conjI, assumption+)
qed

section \<open>Properties of the photo sorter\<close>

subsection \<open>The scan loop\<close>

lemma record_file_total: "bucket_total (record_file dir_path file ftm) = Suc (bucket_total ftm)"
  by (induction dir_path "file" ftm rule: record_file.induct) (auto simp: bucket_total_def)

lemma strptime_error: "strptime_Ymd g = Inl e \<Longrightarrow> e = ValueError"
  by (auto simp: strptime_Ymd_def Let_def split: if_splits)

lemma scan_counts:
  "scan path files n ftm = Inr (n', ftm') \<Longrightarrow>
     n' = n - int (length (unmatched files)) \<and>
     int (bucket_total ftm') = int (bucket_total ftm) + int (length files) - int (length (unmatched files))"
proof (induction files arbitrary: n ftm)
  case Nil
  then show ?case by (simp add: unmatched_def)
next
  case (Cons f files)
  show ?case
  proof (cases "file_name_match f")
    case None
    with Cons.prems have "scan path files (n - 1) ftm = Inr (n', ftm')" by simp
    from Cons.IH [OF this] None show ?thesis by (simp add: unmatched_def)
  next
    case (Some g)
    with Cons.prems obtain dt dir_path where
      "strptime_Ymd g = Inr dt" "path_join path (strftime_Ym dt) = Inr dir_path"
      and rest: "scan path files n (record_file dir_path f ftm) = Inr (n', ftm')"
      by (auto split: sum.splits)
    from Cons.IH [OF rest] Some show ?thesis
      by (simp add: unmatched_def record_file_total)
  qed
qed

lemma scan_returns:
  assumes "\<forall>file \<in> set files. \<forall>g. file_name_match file = Some g \<longrightarrow> (\<exists>dt. strptime_Ymd g = Inr dt)"
  shows "\<exists>n' ftm'. scan (Some p) files n ftm = Inr (n', ftm')"
  using assms
proof (induction files arbitrary: n ftm)
  case Nil
  then show ?case by simp
next
  case (Cons f files)
  show ?case
  proof (cases "file_name_match f")
    case None
    with Cons show ?thesis by simp
  next
    case (Some g)
    with Cons.prems obtain dt where dt: "strptime_Ymd g = Inr dt" by auto
    obtain dir_path where j: "path_join (Some p) (strftime_Ym dt) = Inr dir_path"
      by (simp add: path_join_def)
    from Cons.prems have "\<forall>file \<in> set files. \<forall>g. file_name_match file = Some g \<longrightarrow> (\<exists>dt. strptime_Ymd g = Inr dt)"
      by simp
    from Cons.IH [OF this, of n "record_file dir_path f ftm"] Some dt j show ?thesis by simp
  qed
qed

lemma scan_bad_date:
  assumes "file \<in> set files" and "file_name_match file = Some g" and "strptime_Ymd g = Inl e"
  shows "\<exists>err. scan path files n ftm = Inl err \<and> (path \<noteq> None \<longrightarrow> err = ValueError)"
  using assms(1)
proof (induction files arbitrary: n ftm)
  case Nil
  then show ?case by simp
next
  case (Cons f files)
  show ?case
  proof (cases "file_name_match f")
    case None
    with Cons assms(2) show ?thesis by auto
  next
    case (Some g')
    show ?thesis
    proof (cases "strptime_Ymd g'")
      case (Inl e')
      with Some strptime_error [OF Inl] show ?thesis by simp
    next
      case (Inr dt)
      show ?thesis
      proof (cases path)
        case None
        with Some Inr show ?thesis by (simp add: path_join_def)
      next
        case (Some p)
        from Inr \<open>file_name_match f = Some g'\<close> assms(2,3) Cons.prems have "file \<in> set files"
          by auto
        from Cons.IH [OF this] Some Inr \<open>file_name_match f = Some g'\<close> show ?thesis
          by (simp add: path_join_def)
      qed
    qed
  qed
qed

lemma scan_no_path:
  "scan None files n ftm =
     (case first_group files of
        None \<Rightarrow> Inr (n - int (length files), ftm)
      | Some g \<Rightarrow> Inl (case strptime_Ymd g of Inl e \<Rightarrow> e | Inr dt \<Rightarrow> TypeError))"
  by (induction files arbitrary: n) (auto simp: path_join_def split: option.splits sum.splits)

subsection \<open>Claims\<close>

lemma dates_valid_iff:
  "dates_valid files \<longleftrightarrow>
     (\<forall>f \<in> set files. \<forall>g. file_name_match f = Some g \<longrightarrow> (\<exists>dt. strptime_Ymd g = Inr dt))"
proof -
  have "(case strptime_Ymd g of Inl e \<Rightarrow> False | Inr dt \<Rightarrow> True) = (\<exists>dt. strptime_Ymd g = Inr dt)" for g
    by (cases "strptime_Ymd g") auto
  then show ?thesis
    by (auto simp: dates_valid_def list_all_iff split: option.splits)
qed

text \<open>
  C3, as the spec states it: with \<^verbatim>\<open>--path\<close> left out, nothing validates the argument and
  the run fails at the directory listing. The first half holds: \<^verbatim>\<open>args.path\<close> is
  \<^verbatim>\<open>None\<close> and goes to \<^verbatim>\<open>os.listdir\<close> as it is. The second half does not follow from the
  script: \<^verbatim>\<open>os.listdir(None)\<close> lists the current directory, and on a listing that succeeds
  the run goes on. With no name that matches it prints \<^verbatim>\<open>Moving 0 files\<close> and ends without
  an error.
\<close>

theorem missing_path_listing_succeeds:
  "sort_photos sample_listdir sample_mkdir sample_move None = (None, [ListDir None, Moving 0])"
  by code_simp

text \<open>
  C3, amended: with \<^verbatim>\<open>--path\<close> left out the run is decided by the listing of \<^verbatim>\<open>None\<close>. If
  the listing raises, the run ends there with that error. If it returns names and none
  matches, the run prints \<^verbatim>\<open>Moving 0 files\<close> and ends. If a name matches, the run ends in the
  scan at the first such name, with \<^verbatim>\<open>ValueError\<close> when its date does not parse and with
  \<^verbatim>\<open>TypeError\<close> (joining \<^verbatim>\<open>None\<close>) otherwise. In no case is a directory made or a file moved.
\<close>

theorem missing_path_run:
  "sort_photos listdir mkdir move None =
     (case listdir None of
        Inl e \<Rightarrow> (Some e, [ListDir None])
      | Inr files \<Rightarrow>
         (case first_group files of
            None \<Rightarrow> (None, [ListDir None, Moving 0])
          | Some g \<Rightarrow>
              (Some (case strptime_Ymd g of Inl e \<Rightarrow> e | Inr dt \<Rightarrow> TypeError),
               [ListDir None])))"
  by (simp add: sort_photos_def scan_no_path split: sum.splits option.splits)

text \<open>
  C6. Whenever the scan of a listing returns, the count it leaves in \<^verbatim>\<open>n_files\<close> (the one
  printed in \<^verbatim>\<open>Moving n files\<close>) is the sum of the sizes of the buckets, and it is the number
  of names listed minus the number of names that do not match. And when every name that
  matches carries a date that parses, the scan of a listed directory does return and the
  run prints that count, whatever the move phase then does.
\<close>

theorem count_invariant:
  "(scan path files (int (length files)) [] = Inr (n_files, ftm) \<longrightarrow>
      n_files = int (bucket_total ftm) \<and>
      n_files = int (length files) - int (length (unmatched files))) \<and>
   (dates_valid files \<and> listdir (Some p) = Inr files \<longrightarrow>
      (\<exists>n ftm' r acts.
          scan (Some p) files (int (length files)) [] = Inr (n, ftm') \<and>
          sort_photos listdir mkdir move (Some p) = (r, ListDir (Some p) # Moving n # acts)))"
proof (rule conjI)
  show "scan path files (int (length files)) [] = Inr (n_files, ftm) \<longrightarrow>
      n_files = int (bucket_total ftm) \<and>
      n_files = int (length files) - int (length (unmatched files))"
  proof
    assume sc: "scan path files (int (length files)) [] = Inr (n_files, ftm)"
    from scan_counts [OF sc]
    show "n_files = int (bucket_total ftm) \<and>
          n_files = int (length files) - int (length (unmatched files))"
      by (simp add: bucket_total_def)
  qed
  show "dates_valid files \<and> listdir (Some p) = Inr files \<longrightarrow>
      (\<exists>n ftm' r acts.
          scan (Some p) files (int (length files)) [] = Inr (n, ftm') \<and>
          sort_photos listdir mkdir move (Some p) = (r, ListDir (Some p) # Moving n # acts))"
  proof
    assume a: "dates_valid files \<and> listdir (Some p) = Inr files"
    then obtain n ftm' where
      sc: "scan (Some p) files (int (length files)) [] = Inr (n, ftm')"
      using scan_returns [of files p "int (length files)" "[]"] by (auto simp: dates_valid_iff)
    obtain r acts where
      mv: "move_phase mkdir move (Some p) [ListDir (Some p), Moving n] ftm' = (r, acts)"
      by (cases "move_phase mkdir move (Some p) [ListDir (Some p), Moving n] ftm'")
    from a sc mv
    have "sort_photos listdir mkdir move (Some p) = (r, ListDir (Some p) # Moving n # acts)"
      by (simp add: sort_photos_def)
    with sc show "\<exists>n ftm' r acts.
          scan (Some p) files (int (length files)) [] = Inr (n, ftm') \<and>
          sort_photos listdir mkdir move (Some p) = (r, ListDir (Some p) # Moving n # acts)"
      by blast
  qed
qed

theorem count_invariant_witness:
  "scan (Some ''/photos'') photos (int (length photos)) [] =
     Inr (3, [(''/photos/2023/06'', [''IMG_20230615_101500.jpg'', ''IMG_20230601_000000.png'']),
              (''/photos/2023/01'', [''PANO_20230101_080000.jpg''])]) \<and>
   (3::int) = int (bucket_total
                [(''/photos/2023/06'', [''IMG_20230615_101500.jpg'', ''IMG_20230601_000000.png'']),
                 (''/photos/2023/01'', [''PANO_20230101_080000.jpg''])]) \<and>
   (3::int) = int (length photos) - int (length (unmatched photos)) \<and>
   dates_valid photos \<and> sample_listdir (Some ''/photos'') = Inr photos \<and>
   (\<exists>r acts. sort_photos sample_listdir sample_mkdir sample_move (Some ''/photos'') =
               (r, ListDir (Some ''/photos'') # Moving 3 # acts))"
proof -
  have h1: "dates_valid photos" by code_simp
  have h2: "sample_listdir (Some ''/photos'') = Inr photos" by code_simp
  have run: "scan (Some ''/photos'') photos (int (length photos)) [] =
     Inr (3, [(''/photos/2023/06'', [''IMG_20230615_101500.jpg'', ''IMG_20230601_000000.png'']),
              (''/photos/2023/01'', [''PANO_20230101_080000.jpg''])])"
    by code_simp
  note inst = count_invariant [where listdir = sample_listdir and mkdir = sample_mkdir
      and move = sample_move and p = "''/photos''"
      and path = "Some ''/photos''" and files = photos and n_files = 3
      and ftm = "[(''/photos/2023/06'', [''IMG_20230615_101500.jpg'', ''IMG_20230601_000000.png'']),
                  (''/photos/2023/01'', [''PANO_20230101_080000.jpg''])]"]
  note c = inst [THEN conjunct1, THEN mp, OF run]
  from inst [THEN conjunct2, THEN mp, OF conjI [OF h1 h2]] obtain n ftm' r acts where
    a: "scan (Some ''/photos'') photos (int (length photos)) [] = Inr (n, ftm')" and
    b: "sort_photos sample_listdir sample_mkdir sample_move (Some ''/photos'') =
          (r, ListDir (Some ''/photos'') # Moving n # acts)"
    by blast
  from a have "Inr (n, ftm') = scan (Some ''/photos'') photos (int (length photos)) []"
    by (rule sym)
  also note run
  finally have n: "n = 3" by simp
  from b [unfolded n]
  have e: "\<exists>r acts. sort_photos sample_listdir sample_mkdir sample_move (Some ''/photos'') =
             (r, ListDir (Some ''/photos'') # Moving 3 # acts)"
    by (intro exI)
  note c1 = c [THEN conjunct1] and c2 = c [THEN conjunct2]
  from run c1 c2 h1 h2 e show ?thesis by - (intro conjI, assumption+)
qed

text \<open>
  The count does not say that the moves succeed: under \<^verbatim>\<open>/blocked\<close> the count is printed
  and the first directory creation raises. Under \<^verbatim>\<open>/photos\<close> the three files are moved.
\<close>

lemma blocked_directory_run:
  "sort_photos sample_listdir sample_mkdir sample_move (Some ''/blocked'') =
     (Some NotADirectoryError,
      [ListDir (Some ''/blocked''), Moving 1, Mkdir ''/blocked/2023/06''])"
  by code_simp

lemma photos_run:
  "sort_photos sample_listdir sample_mkdir sample_move (Some ''/photos'') =
     (None,
      [ListDir (Some ''/photos''), Moving 3,
       Mkdir ''/photos/2023/06'',
       Move ''/photos/IMG_20230615_101500.jpg'' ''/photos/2023/06/IMG_20230615_101500.jpg'', Tick,
       Move ''/photos/IMG_20230601_000000.png'' ''/photos/2023/06/IMG_20230601_000000.png'', Tick,
       Mkdir ''/photos/2023/01'',
       Move ''/photos/PANO_20230101_080000.jpg'' ''/photos/2023/01/PANO_20230101_080000.jpg'', Tick])"
  by code_simp

text \<open>
  C9. The scan comes before the move loop: if a listed name matches the pattern and its
  eight digits are not a date, the run ends with an error after the listing and nothing
  else: no directory is made, no file is moved. With a path given the error is the
  \<^verbatim>\<open>ValueError\<close> of the date; without one it may be the \<^verbatim>\<open>TypeError\<close> of an earlier name.
\<close>

theorem bad_date_moves_nothing:
  assumes "listdir path = Inr files" and "f \<in> set files"
    and "file_name_match f = Some g" and "strptime_Ymd g = Inl e"
  shows "\<exists>err. sort_photos listdir mkdir move path = (Some err, [ListDir path]) \<and>
               (err = ValueError \<or> path = None \<and> err = TypeError)"
proof -
  from scan_bad_date [OF assms(2,3,4), of path "int (length files)" "[]"]
  obtain err where sc: "scan path files (int (length files)) [] = Inl err"
    and v: "path \<noteq> None \<longrightarrow> err = ValueError" by blast
  have "err = ValueError \<or> path = None \<and> err = TypeError"
  proof (cases path)
    case None
    with sc show ?thesis
      by (auto simp: scan_no_path split: option.splits sum.splits dest: strptime_error)
  next
    case (Some p)
    with v show ?thesis by simp
  qed
  moreover from assms(1) sc have "sort_photos listdir mkdir move path = (Some err, [ListDir path])"
    by (simp add: sort_photos_def)
  ultimately show ?thesis by blast
qed

theorem bad_date_moves_nothing_witness:
  "sample_listdir (Some ''/bad'') = Inr bad_photos \<and>
   ''IMG_20230230_101500.jpg'' \<in> set bad_photos \<and>
   file_name_match ''IMG_20230230_101500.jpg'' = Some ''20230230'' \<and>
   strptime_Ymd ''20230230'' = Inl ValueError \<and>
   sort_photos sample_listdir sample_mkdir sample_move (Some ''/bad'') =
     (Some ValueError, [ListDir (Some ''/bad'')])"
proof -
  have h1: "sample_listdir (Some ''/bad'') = Inr bad_photos" by code_simp
  have h2: "''IMG_20230230_101500.jpg'' \<in> set bad_photos" by (simp add: bad_photos_def)
  have h3: "file_name_match ''IMG_20230230_101500.jpg'' = Some ''20230230''" by code_simp
  have h4: "strptime_Ymd ''20230230'' = Inl ValueError" by code_simp
  from bad_date_moves_nothing [where listdir = sample_listdir and mkdir = sample_mkdir
      and move = sample_move and path = "Some ''/bad''", OF h1 h2 h3 h4]
  have "sort_photos sample_listdir sample_mkdir sample_move (Some ''/bad'') =
     (Some ValueError, [ListDir (Some ''/bad'')])"
    by auto
  with h1 h2 h3 h4 show ?thesis by - (intro conjI, assumption+)
qed

section \<open>Properties of the display name changer\<close>

subsection \<open>The confirmation prompt\<close>

lemma lower_char_y: "lower_char c = CHR ''y'' \<longleftrightarrow> c = CHR ''y'' \<or> c = CHR ''Y''"
proof
  assume l: "lower_char c = CHR ''y''"
  show "c = CHR ''y'' \<or> c = CHR ''Y''"
  proof (cases "65 \<le> (of_char c :: nat) \<and> (of_char c :: nat) \<le> 90")
    case False
    with l show ?thesis by (simp add: lower_char_def Let_def)
  next
    case True
    with l have "char_of ((of_char c :: nat) + 32) = CHR ''y''" by (simp add: lower_char_def Let_def)
    then have "(of_char (char_of ((of_char c :: nat) + 32) :: char) :: nat) = of_char CHR ''y''" by simp
    with True have "(of_char c :: nat) + 32 = 121" by (simp add: of_char_of)
    then have "(of_char c :: nat) = of_char CHR ''Y''" by simp
    then have "c = CHR ''Y''" by (simp only: of_char_eq_iff)
    then show ?thesis by simp
  qed
next
  have y: "lower_char CHR ''y'' = CHR ''y''" and Y: "lower_char CHR ''Y'' = CHR ''y''"
    by code_simp+
  assume "c = CHR ''y'' \<or> c = CHR ''Y''"
  with y Y show "lower_char c = CHR ''y''" by auto
qed

lemma lower_y: "lower s = ''y'' \<longleftrightarrow> s = ''y'' \<or> s = ''Y''"
proof (cases s)
  case Nil
  then show ?thesis by (simp add: lower_def)
next
  case (Cons c cs)
  then show ?thesis by (cases cs) (auto simp: lower_def lower_char_y)
qed

lemma proceeds_iff: "choice = [] \<or> lower choice = ''y'' \<longleftrightarrow> choice \<in> {[], ''y'', ''Y''}"
  using lower_y [of choice] by auto


lemma req_get_no_put: "req c ''GET'' path kwargs r = (x, cs) \<Longrightarrow> \<forall>cl \<in> set cs. \<not> is_put cl"
  by (auto simp: req_def is_put_def Let_def split: if_splits reply.splits option.splits)

lemma resolve_base_url_no_put:
  "resolve_base_url srv c domain = (x, cs) \<Longrightarrow> \<forall>cl \<in> set cs. \<not> is_put cl"
proof -
  assume a: "resolve_base_url srv c domain = (x, cs)"
  obtain y cs0 where r: "req c ''GET'' (''https://'' @ domain @ ''/.well-known/matrix/client'') None
             (srv_well_known srv domain) = (y, cs0)"
    by (cases "req c ''GET'' (''https://'' @ domain @ ''/.well-known/matrix/client'') None
             (srv_well_known srv domain)")
  with a have "cs = cs0"
    by (auto simp: resolve_base_url_def split: sum.splits failure.splits)
  with req_get_no_put [OF r] show ?thesis by simp
qed

lemma client_init_no_put:
  "client_init srv c = (x, cs) \<Longrightarrow> \<forall>cl \<in> set cs. \<not> is_put cl"
  by (auto simp: client_init_def Let_def split: if_splits prod.splits sum.splits
      dest!: resolve_base_url_no_put req_get_no_put)

lemma inspect_room_no_put:
  "inspect_room srv c members room_id = (x, cs) \<Longrightarrow> \<forall>cl \<in> set cs. \<not> is_put cl"
  by (auto simp: inspect_room_def split: if_splits prod.splits sum.splits dest!: req_get_no_put)

lemma dm_loop_no_put:
  "dm_loop srv c members rooms = (x, cs) \<Longrightarrow> \<forall>cl \<in> set cs. \<not> is_put cl"
proof (induction rooms arbitrary: c x cs)
  case Nil
  then show ?case by simp
next
  case (Cons room_id rooms)
  obtain y cs0 where one: "inspect_room srv c members room_id = (y, cs0)"
    by (cases "inspect_room srv c members room_id")
  note n0 = inspect_room_no_put [OF one]
  show ?case
  proof (cases y)
    case (Inl f)
    with Cons.prems one n0 show ?thesis by simp
  next
    case (Inr c')
    obtain z cs1 where rest: "dm_loop srv c' members rooms = (z, cs1)"
      by (cases "dm_loop srv c' members rooms")
    with Cons.prems one Inr have "cs = cs0 @ cs1" by simp
    with n0 Cons.IH [OF rest] show ?thesis by auto
  qed
qed

lemma dm_rooms_in_space_no_put:
  "dm_rooms_in_space srv c space_id = (x, cs) \<Longrightarrow> \<forall>cl \<in> set cs. \<not> is_put cl"
  by (auto simp: dm_rooms_in_space_def split: prod.splits sum.splits
      dest!: req_get_no_put dm_loop_no_put)

lemma find_rooms_in_space_no_put:
  "find_rooms_in_space srv c space = (x, cs) \<Longrightarrow> \<forall>cl \<in> set cs. \<not> is_put cl"
  by (auto simp: find_rooms_in_space_def split: if_splits prod.splits sum.splits
      dest!: req_get_no_put dm_rooms_in_space_no_put)

text \<open>
  C2, as the spec states it: an empty answer or an answer beginning with y or Y runs the
  update pass. The script compares the whole answer, lower-cased, with \<^verbatim>\<open>"y"\<close>: the answer
  \<^verbatim>\<open>yes\<close> begins with y and still ends the run without a single \<^verbatim>\<open>PUT\<close>, where the answer
  \<^verbatim>\<open>y\<close> sends one for each of the two rooms found.
\<close>

theorem yes_does_not_proceed:
  "take 1 ''yes'' = ''y'' \<and>
   main_flow sample_server alice ''secret'' ''#space:example.org'' ''Alice (work)'' ''yes'' =
     (None, init_calls @ find_calls) \<and>
   filter is_put
     (snd (main_flow sample_server alice ''secret'' ''#space:example.org'' ''Alice (work)'' ''y'')) =
     map (\<lambda>room_id.
            Call ''PUT''
              (OnBase (JStr ''https://example.org'')
                 (''/_matrix/client/v3/rooms/'' @ room_id @ ''/state/m.room.member/@alice:example.org''))
              (Some (evt_content ''Alice (work)'' (Some ''mxc://hs/a''))))
       [''!room1:hs'', ''!dm1:hs'']"
  by code_simp

text \<open>
  C2, amended: the update pass runs exactly when the answer is empty, \<^verbatim>\<open>y\<close> or \<^verbatim>\<open>Y\<close>. On
  such an answer the run is the run up to the prompt followed by \<^verbatim>\<open>change_display_name\<close>. On
  any other answer no \<^verbatim>\<open>PUT\<close> is sent at all, and a run that reached the prompt ends there
  without an error.
\<close>

theorem confirmation_gate:
  "(choice \<in> {[], ''y'', ''Y''} \<and>
    client_init srv (new_client uid token) = (Inr c, cs) \<and>
    find_rooms_in_space srv c space = (Inr c', cs') \<longrightarrow>
      main_flow srv uid token space new_display_name choice =
        (fst (change_display_name srv c' new_display_name),
         cs @ cs' @ snd (change_display_name srv c' new_display_name))) \<and>
   (choice \<notin> {[], ''y'', ''Y''} \<longrightarrow>
      filter is_put (snd (main_flow srv uid token space new_display_name choice)) = [] \<and>
      (client_init srv (new_client uid token) = (Inr c, cs) \<and>
       find_rooms_in_space srv c space = (Inr c', cs') \<longrightarrow>
         main_flow srv uid token space new_display_name choice = (None, cs @ cs')))"
proof (intro conjI impI)
  assume "choice \<in> {[], ''y'', ''Y''} \<and>
    client_init srv (new_client uid token) = (Inr c, cs) \<and>
    find_rooms_in_space srv c space = (Inr c', cs')"
  then show "main_flow srv uid token space new_display_name choice =
        (fst (change_display_name srv c' new_display_name),
         cs @ cs' @ snd (change_display_name srv c' new_display_name))"
    using proceeds_iff [of choice] by (simp add: main_flow_def split: prod.splits)
next
  assume no: "choice \<notin> {[], ''y'', ''Y''}"
  then have stop: "\<not> (choice = [] \<or> lower choice = ''y'')"
    using proceeds_iff [of choice] by simp
  obtain x cs0 where i: "client_init srv (new_client uid token) = (x, cs0)"
    by (cases "client_init srv (new_client uid token)")
  note n0 = client_init_no_put [OF i]
  show "filter is_put (snd (main_flow srv uid token space new_display_name choice)) = []"
  proof (cases x)
    case (Inl f)
    with i n0 show ?thesis by (simp add: main_flow_def filter_empty_conv)
  next
    case (Inr c0)
    obtain y cs1 where f: "find_rooms_in_space srv c0 space = (y, cs1)"
      by (cases "find_rooms_in_space srv c0 space")
    note n1 = find_rooms_in_space_no_put [OF f]
    from i Inr f stop n0 n1 show ?thesis
      by (cases y) (simp_all add: main_flow_def filter_empty_conv)
  qed
next
  assume "choice \<notin> {[], ''y'', ''Y''}"
  then have stop: "\<not> (choice = [] \<or> lower choice = ''y'')"
    using proceeds_iff [of choice] by simp
  assume "client_init srv (new_client uid token) = (Inr c, cs) \<and>
       find_rooms_in_space srv c space = (Inr c', cs')"
  with stop show "main_flow srv uid token space new_display_name choice = (None, cs @ cs')"
    by (simp add: main_flow_def)
qed

theorem confirmation_gate_witness:
  "''y'' \<in> {[], ''y'', ''Y''} \<and>
   client_init sample_server (new_client alice ''secret'') = (Inr ready_client, init_calls) \<and>
   find_rooms_in_space sample_server ready_client ''#space:example.org'' =
     (Inr found_client, find_calls) \<and>
   main_flow sample_server alice ''secret'' ''#space:example.org'' ''Alice (work)'' ''y'' =
     (fst (change_display_name sample_server found_client ''Alice (work)''),
      init_calls @ find_calls @ snd (change_display_name sample_server found_client ''Alice (work)'')) \<and>
   ''no'' \<notin> {[], ''y'', ''Y''} \<and>
   filter is_put
     (snd (main_flow sample_server alice ''secret'' ''#space:example.org'' ''Alice (work)'' ''no'')) = [] \<and>
   main_flow sample_server alice ''secret'' ''#space:example.org'' ''Alice (work)'' ''no'' =
     (None, init_calls @ find_calls)"
proof -
  have h0: "''y'' \<in> {[], ''y'', ''Y''}" by simp
  have h1: "client_init sample_server (new_client alice ''secret'') = (Inr ready_client, init_calls)"
    by code_simp
  have h2: "find_rooms_in_space sample_server ready_client ''#space:example.org'' =
     (Inr found_client, find_calls)"
    by code_simp
  have n0: "''no'' \<notin> {[], ''y'', ''Y''}" by simp
  note yes = confirmation_gate [where choice = "''y''" and srv = sample_server and uid = alice
      and token = "''secret''" and c = ready_client and cs = init_calls
      and space = "''#space:example.org''" and c' = found_client and cs' = find_calls
      and new_display_name = "''Alice (work)''",
      THEN conjunct1, THEN mp, OF conjI [OF h0 conjI [OF h1 h2]]]
  note no = confirmation_gate [where choice = "''no''" and srv = sample_server and uid = alice
      and token = "''secret''" and c = ready_client and cs = init_calls
      and space = "''#space:example.org''" and c' = found_client and cs' = find_calls
      and new_display_name = "''Alice (work)''",
      THEN conjunct2, THEN mp, OF n0]
  note no1 = no [THEN conjunct1]
  note no2 = no [THEN conjunct2, THEN mp, OF conjI [OF h1 h2]]
  from h0 h1 h2 yes n0 no1 no2 show ?thesis by - (intro conjI, assumption+)
qed

subsection \<open>The well-known resolution\<close>

lemma req_absolute:
  "req c method (''https://'' @ rest) kwargs (Reply code content body) =
     (if code \<noteq> 200
      then (Inl (HttpError code content (Absolute (''https://'' @ rest))),
            [Call method (Absolute (''https://'' @ rest)) kwargs])
      else (case body of
              None \<Rightarrow> (Inl (Py JSONDecodeError), [Call method (Absolute (''https://'' @ rest)) kwargs])
            | Some v \<Rightarrow> (Inr v, [Call method (Absolute (''https://'' @ rest)) kwargs])))"
  by (simp add: req_def Let_def split: option.splits)

lemma resolve_base_url_cases:
  assumes "srv_well_known srv domain = Reply code content body"
  shows "resolve_base_url srv c domain =
     (if code \<noteq> 200
      then (Inr (JStr (''https://'' @ domain)),
            [Call ''GET'' (Absolute (''https://'' @ domain @ ''/.well-known/matrix/client'')) None])
      else
       (case body of
          None \<Rightarrow>
            (Inl (Py JSONDecodeError),
             [Call ''GET'' (Absolute (''https://'' @ domain @ ''/.well-known/matrix/client'')) None])
        | Some doc \<Rightarrow>
           (case subscript doc ''m.homeserver'' of
              Inl e \<Rightarrow>
                (Inl (Py e),
                 [Call ''GET'' (Absolute (''https://'' @ domain @ ''/.well-known/matrix/client'')) None])
            | Inr hs \<Rightarrow>
               (case subscript hs ''base_url'' of
                  Inl e \<Rightarrow>
                    (Inl (Py e),
                     [Call ''GET'' (Absolute (''https://'' @ domain @ ''/.well-known/matrix/client'')) None])
                | Inr b \<Rightarrow>
                    (Inr b,
                     [Call ''GET'' (Absolute (''https://'' @ domain @ ''/.well-known/matrix/client'')) None])))))"
  unfolding resolve_base_url_def assms req_absolute
  by (simp split: option.splits sum.splits)

lemma client_init_well_known:
  assumes "split_on CHR '':'' (user_id c) = [localpart, domain]"
  shows
   "(srv_well_known srv domain = Reply 200 content (Some doc) \<and>
     (subscript doc ''m.homeserver'' = Inl e \<or>
      (\<exists>hs. subscript doc ''m.homeserver'' = Inr hs \<and> subscript hs ''base_url'' = Inl e)) \<longrightarrow>
       client_init srv c =
         (Inl (Py e),
          [Call ''GET'' (Absolute (''https://'' @ domain @ ''/.well-known/matrix/client'')) None])) \<and>
    (srv_well_known srv domain = Reply code text body \<and> client_init srv c = (Inr c', cs) \<longrightarrow>
       (if code \<noteq> 200 then base_url c' = JStr (''https://'' @ domain)
        else (\<exists>document hs. body = Some document \<and>
                subscript document ''m.homeserver'' = Inr hs \<and>
                subscript hs ''base_url'' = Inr (base_url c'))))"
proof (intro conjI impI)
  assume a: "srv_well_known srv domain = Reply 200 content (Some doc) \<and>
     (subscript doc ''m.homeserver'' = Inl e \<or>
      (\<exists>hs. subscript doc ''m.homeserver'' = Inr hs \<and> subscript hs ''base_url'' = Inl e))"
  then have wk: "srv_well_known srv domain = Reply 200 content (Some doc)" by simp
  from a have "resolve_base_url srv c domain =
     (Inl (Py e), [Call ''GET'' (Absolute (''https://'' @ domain @ ''/.well-known/matrix/client'')) None])"
    by (auto simp: resolve_base_url_cases [OF wk])
  with assms show "client_init srv c =
         (Inl (Py e),
          [Call ''GET'' (Absolute (''https://'' @ domain @ ''/.well-known/matrix/client'')) None])"
    by (simp add: client_init_def)
next
  assume a: "srv_well_known srv domain = Reply code text body \<and> client_init srv c = (Inr c', cs)"
  then have wk: "srv_well_known srv domain = Reply code text body"
    and i: "client_init srv c = (Inr c', cs)" by simp_all
  from i assms obtain b cs0 where r: "resolve_base_url srv c domain = (Inr b, cs0)"
    and b: "base_url c' = b"
    by (auto simp: client_init_def split: prod.splits sum.splits)
  show "if code \<noteq> 200 then base_url c' = JStr (''https://'' @ domain)
        else (\<exists>document hs. body = Some document \<and>
                subscript document ''m.homeserver'' = Inr hs \<and>
                subscript hs ''base_url'' = Inr (base_url c'))"
  proof (cases "code = 200")
    case False
    with r b show ?thesis by (simp add: resolve_base_url_cases [OF wk])
  next
    case True
    with r b show ?thesis
      by (auto simp: resolve_base_url_cases [OF wk] split: option.splits sum.splits)
  qed
qed

text \<open>
  C10. For a user identifier with one colon: when the discovery request is answered with
  status 200 and the document has no \<^verbatim>\<open>m.homeserver\<close>, or that has no \<^verbatim>\<open>base_url\<close>, the
  lookup error ends \<^verbatim>\<open>init\<close> right after the discovery request, and the program with it: no
  fallback, no further request. And when \<^verbatim>\<open>init\<close> succeeds, the base URL is
  \<^verbatim>\<open>https://<domain>\<close> by fallback if the status was not 200, and otherwise it is the
  \<^verbatim>\<open>base_url\<close> of the document.
\<close>

theorem lookup_error_not_caught:
  assumes "split_on CHR '':'' uid = [localpart, domain]"
  shows
   "(srv_well_known srv domain = Reply 200 content (Some doc) \<and>
     (subscript doc ''m.homeserver'' = Inl e \<or>
      (\<exists>hs. subscript doc ''m.homeserver'' = Inr hs \<and> subscript hs ''base_url'' = Inl e)) \<longrightarrow>
       client_init srv (new_client uid token) =
         (Inl (Py e),
          [Call ''GET'' (Absolute (''https://'' @ domain @ ''/.well-known/matrix/client'')) None]) \<and>
       main_flow srv uid token space new_display_name choice =
         (Some (Py e),
          [Call ''GET'' (Absolute (''https://'' @ domain @ ''/.well-known/matrix/client'')) None])) \<and>
    (srv_well_known srv domain = Reply code text body \<and>
     client_init srv (new_client uid token) = (Inr c', cs) \<longrightarrow>
       (if code \<noteq> 200 then base_url c' = JStr (''https://'' @ domain)
        else (\<exists>document hs. body = Some document \<and>
                subscript document ''m.homeserver'' = Inr hs \<and>
                subscript hs ''base_url'' = Inr (base_url c'))))"
proof -
  have u: "split_on CHR '':'' (user_id (new_client uid token)) = [localpart, domain]"
    using assms by (simp add: new_client_def)
  note base = client_init_well_known [OF u]
  show ?thesis
  proof (intro conjI impI)
    assume a: "srv_well_known srv domain = Reply 200 content (Some doc) \<and>
     (subscript doc ''m.homeserver'' = Inl e \<or>
      (\<exists>hs. subscript doc ''m.homeserver'' = Inr hs \<and> subscript hs ''base_url'' = Inl e))"
    from base [THEN conjunct1, THEN mp, OF a]
    show i: "client_init srv (new_client uid token) =
         (Inl (Py e),
          [Call ''GET'' (Absolute (''https://'' @ domain @ ''/.well-known/matrix/client'')) None])" .
    then show "main_flow srv uid token space new_display_name choice =
         (Some (Py e),
          [Call ''GET'' (Absolute (''https://'' @ domain @ ''/.well-known/matrix/client'')) None])"
      by (simp add: main_flow_def)
  next
    assume a: "srv_well_known srv domain = Reply code text body \<and>
     client_init srv (new_client uid token) = (Inr c', cs)"
    from base [THEN conjunct2, THEN mp, OF a]
    show "if code \<noteq> 200 then base_url c' = JStr (''https://'' @ domain)
        else (\<exists>document hs. body = Some document \<and>
                subscript document ''m.homeserver'' = Inr hs \<and>
                subscript hs ''base_url'' = Inr (base_url c'))" .
  qed
qed

theorem lookup_error_not_caught_witness:
  "split_on CHR '':'' alice = [''@alice'', ''example.org''] \<and>
   srv_well_known no_well_known ''example.org'' = Reply 200 ''{}'' (Some (JObj [])) \<and>
   subscript (JObj []) ''m.homeserver'' = Inl (KeyError ''m.homeserver'') \<and>
   client_init no_well_known (new_client alice ''secret'') =
     (Inl (Py (KeyError ''m.homeserver'')), [well_known_call]) \<and>
   main_flow no_well_known alice ''secret'' ''#space:example.org'' ''Alice (work)'' ''y'' =
     (Some (Py (KeyError ''m.homeserver'')), [well_known_call]) \<and>
   srv_well_known no_base_url ''example.org'' =
     Reply 200 ''{...}'' (Some (JObj [(''m.homeserver'', JObj [])])) \<and>
   subscript (JObj [(''m.homeserver'', JObj [])]) ''m.homeserver'' = Inr (JObj []) \<and>
   subscript (JObj []) ''base_url'' = Inl (KeyError ''base_url'') \<and>
   client_init no_base_url (new_client alice ''secret'') =
     (Inl (Py (KeyError ''base_url'')), [well_known_call]) \<and>
   srv_well_known sample_server ''example.org'' = Reply 404 ''not found'' None \<and>
   client_init sample_server (new_client alice ''secret'') = (Inr ready_client, init_calls) \<and>
   base_url ready_client = JStr ''https://example.org''"
proof -
  have sp: "split_on CHR '':'' alice = [''@alice'', ''example.org'']"
    by code_simp
  have a1: "srv_well_known no_well_known ''example.org'' = Reply 200 ''{}'' (Some (JObj []))"
    by code_simp
  have a2: "subscript (JObj []) ''m.homeserver'' = Inl (KeyError ''m.homeserver'')" by simp
  have b1: "srv_well_known no_base_url ''example.org'' =
     Reply 200 ''{...}'' (Some (JObj [(''m.homeserver'', JObj [])]))"
    by code_simp
  have b2: "subscript (JObj [(''m.homeserver'', JObj [])]) ''m.homeserver'' = Inr (JObj [])" by simp
  have b3: "subscript (JObj []) ''base_url'' = Inl (KeyError ''base_url'')" by simp
  have c1: "srv_well_known sample_server ''example.org'' = Reply 404 ''not found'' None"
    by code_simp
  have c2: "client_init sample_server (new_client alice ''secret'') = (Inr ready_client, init_calls)"
    by code_simp
  have wk: "Call ''GET'' (Absolute (''https://'' @ ''example.org'' @ ''/.well-known/matrix/client'')) None
            = well_known_call"
    by (simp add: well_known_call_def)
  note r1 = lookup_error_not_caught [OF sp, where srv = no_well_known and token = "''secret''"
      and space = "''#space:example.org''" and new_display_name = "''Alice (work)''"
      and choice = "''y''", THEN conjunct1, THEN mp, OF conjI [OF a1 disjI1 [OF a2]], unfolded wk]
  have "\<exists>hs. subscript (JObj [(''m.homeserver'', JObj [])]) ''m.homeserver'' = Inr hs \<and>
             subscript hs ''base_url'' = Inl (KeyError ''base_url'')"
    using b2 b3 by (intro exI conjI)
  note r2 = lookup_error_not_caught [OF sp, where srv = no_base_url and token = "''secret''",
      THEN conjunct1, THEN mp, OF conjI [OF b1 disjI2 [OF this]], THEN conjunct1, unfolded wk]
  from lookup_error_not_caught [OF sp, where srv = sample_server and token = "''secret''",
      THEN conjunct2, THEN mp, OF conjI [OF c1 c2]]
  have r3: "base_url ready_client = JStr ''https://example.org''" by simp
  note r1a = r1 [THEN conjunct1] and r1b = r1 [THEN conjunct2]
  from sp a1 a2 r1a r1b b1 b2 b3 r2 c1 c2 r3 show ?thesis by - (intro conjI, assumption+)
qed

subsection \<open>Direct chats\<close>

text \<open>
  What holds of the discovery of direct chats: a room counts as one exactly when it has two
  joined members and each of them is the acting user or a joined member of the space; the
  name recorded is built from the display name in the room's own answer, never from the
  roster; a room that does not count is left out.
\<close>

lemma is_dm_in_space_iff:
  "is_dm_in_space me members joined \<longleftrightarrow>
     length joined = 2 \<and>
     (\<forall>user \<in> set (map fst joined). user \<noteq> me \<longrightarrow> user \<in> set (map fst members))"
  by (auto simp: is_dm_in_space_def list_all_iff)

lemma dict_set_keys: "set (map fst (dict_set k v d)) = insert k (set (map fst d))"
  by (induction k v d rule: dict_set.induct) auto

lemma roster_keys: "set (map fst (roster joined d)) = set (map fst joined) \<union> set (map fst d)"
proof (induction joined d rule: roster.induct)
  case (1 d)
  then show ?case by simp
next
  case (2 key "value" rest d)
  have "set (map fst (dict_set key (case value of Absent \<Rightarrow> Some key | Present v \<Rightarrow> v) d)) =
        insert key (set (map fst d))"
    by (rule dict_set_keys)
  with "2.IH" show ?case by auto
qed

lemma dict_set_new: "k \<notin> set (map fst d) \<Longrightarrow> dict_set k v d = d @ [(k, v)]"
  by (induction k v d rule: dict_set.induct) auto

lemma correspondant_display_name_find:
  "correspondant_display_name me joined =
     (case List.find (\<lambda>kv. fst kv \<noteq> me) joined of
        None \<Rightarrow> Inr None
      | Some (key, Absent) \<Rightarrow> Inl (KeyError ''display_name'')
      | Some (key, Present v) \<Rightarrow> Inr v)"
  by (induction me joined rule: correspondant_display_name.induct) (auto split: field.splits)

lemma inspect_room_result:
  assumes "room_id \<notin> set (map fst (rooms_in_space c))" and "base_url c \<noteq> JNull"
    and "srv_joined_members srv room_id = Reply 200 content (Some joined)"
  shows "inspect_room srv c members room_id =
     (if is_dm_in_space (user_id c) members joined then
        (case correspondant_display_name (user_id c) joined of
           Inl e \<Rightarrow> Inl (Py e)
         | Inr v \<Rightarrow>
             Inr (c\<lparr>rooms_in_space :=
                      rooms_in_space c @ [(room_id, ''DM with '' @ format_value v)]\<rparr>))
      else Inr c,
      [Call ''GET''
         (OnBase (base_url c) (''/_matrix/client/v3/rooms/'' @ room_id @ ''/joined_members''))
         None])"
  using assms
  by (simp add: inspect_room_def req_def Let_def dict_set_new split: sum.splits)

text \<open>
  C7 (the code departs from it). The claim: every room that qualifies is recorded as
  \<^verbatim>\<open>DM with <display name>\<close>. The field \<^verbatim>\<open>display_name\<close> is optional in the answer, and
  the roster is built with \<^verbatim>\<open>value.get("display_name", key)\<close> for that reason, but
  \<^verbatim>\<open>_correspondant_display_name\<close> indexes \<^verbatim>\<open>value["display_name"]\<close>. On a direct chat with a
  member of the space whose entry has no display name the room qualifies, the lookup raises
  \<^verbatim>\<open>KeyError\<close>, and the whole run ends before the prompt: the room is not recorded.
\<close>

theorem missing_display_name_aborts:
  "srv_joined_members nameless_dm ''!dm3:hs'' =
     Reply 200 ''ok'' (Some [(alice, Present (Some ''Alice'')), (''@carol:example.org'', Absent)]) \<and>
   is_dm_in_space alice
     [(alice, Some ''Alice''), (''@bob:example.org'', Some ''Bob''),
      (''@carol:example.org'', Some ''@carol:example.org'')]
     [(alice, Present (Some ''Alice'')), (''@carol:example.org'', Absent)] \<and>
   main_flow nameless_dm alice ''secret'' ''#space:example.org'' ''Alice (work)'' ''y'' =
     (Some (Py (KeyError ''display_name'')),
      init_calls @
      map (\<lambda>path. Call ''GET'' (OnBase (JStr ''https://example.org'') path) None)
        [''/_matrix/client/v3/directory/room/%23space%3Aexample.org'',
         ''/_matrix/client/v1/rooms/!space:hs/hierarchy'',
         ''/_matrix/client/v3/rooms/!space:hs/joined_members'',
         ''/_matrix/client/v3/rooms/!dm3:hs/joined_members''])"
  by code_simp

end
